theory Spec2Isabelle
  imports Main "HOL-Library.Word"
begin

unbundle bit_operations_syntax

section \<open>The REST storage adapter of \<^verbatim>\<open>rest.go\<close>\<close>

text \<open>
  A shallow embedding of \<^verbatim>\<open>src/rest.go\<close> (package \<^verbatim>\<open>rest\<close>): the configuration
  record with \<^verbatim>\<open>Validate\<close> and \<^verbatim>\<open>UnmarshalCaddyfile\<close>, and the eight storage
  operations. Go's \<^verbatim>\<open>error\<close> results are values of the datatype \<open>error\<close>; \<^verbatim>\<open>nil\<close> is
  \<open>None\<close> of an \<open>error option\<close>, and a \<^verbatim>\<open>(T, error)\<close> result is \<open>error + T\<close>.
  The remote service is explicit state: every \<^verbatim>\<open>client.Do\<close> takes the remote and
  returns it with the request logged.
\<close>

subsection \<open>Errors\<close>

text \<open>
  One constructor for each origin of an error value in \<^verbatim>\<open>rest.go\<close>:
  \<^verbatim>\<open>fs.ErrNotExist\<close>; the values of \<^verbatim>\<open>errors.New\<close> and \<^verbatim>\<open>fmt.Errorf\<close> with their
  message; and the errors handed back by \<^verbatim>\<open>json.Marshal\<close>,
  \<^verbatim>\<open>http.NewRequestWithContext\<close>, \<^verbatim>\<open>client.Do\<close>, \<^verbatim>\<open>Decoder.Decode\<close>,
  \<^verbatim>\<open>base64.StdEncoding.DecodeString\<close> and \<^verbatim>\<open>time.Parse\<close>.
\<close>

datatype error =
    ErrNotExist
  | ErrorString string
  | MarshalError string
  | RequestError string
  | DoError string
  | DecodeError string
  | CorruptInputError nat
  | ParseError string

subsection \<open>Configuration\<close>

record RestStorage =
  Endpoint :: string
  Token :: string

definition Validate :: "RestStorage \<Rightarrow> error option" where
  "Validate r =
     (if Endpoint r = '''' then Some (ErrorString ''endpoint must be specified'')
      else if Token r = '''' then Some (ErrorString ''token must be specified'')
      else None)"

subsection \<open>The Caddyfile dispenser\<close>

text \<open>
  \<^verbatim>\<open>caddyfile.Dispenser\<close> is a token list with a cursor (initially \<open>-1\<close>). \<^verbatim>\<open>Next\<close>,
  \<^verbatim>\<open>Val\<close>, \<^verbatim>\<open>NextArg\<close> and \<^verbatim>\<open>Args\<close> are the methods \<^verbatim>\<open>UnmarshalCaddyfile\<close> calls.
  Whether a token starts a new line is the dispenser's own test on the tokens' files
  and lines; it is the parameter \<open>nl\<close> here.
\<close>

record caddyfile_Token =
  File :: string
  Line :: int
  Text :: string

record Dispenser =
  tokens :: "caddyfile_Token list"
  cursor :: int

definition Next :: "Dispenser \<Rightarrow> bool \<times> Dispenser" where
  "Next d =
     (if cursor d < int (length (tokens d)) - 1 then (True, d\<lparr>cursor := cursor d + 1\<rparr>)
      else (False, d))"

definition Val :: "Dispenser \<Rightarrow> string" where
  "Val d =
     (if cursor d < 0 \<or> cursor d \<ge> int (length (tokens d)) then ''''
      else Text (tokens d ! nat (cursor d)))"

definition nextOnSameLine ::
  "(caddyfile_Token \<Rightarrow> caddyfile_Token \<Rightarrow> bool) \<Rightarrow> Dispenser \<Rightarrow> bool \<times> Dispenser" where
  "nextOnSameLine nl d =
     (if cursor d < 0 then (True, d\<lparr>cursor := cursor d + 1\<rparr>)
      else if cursor d \<ge> int (length (tokens d)) - 1 then (False, d)
      else if \<not> nl (tokens d ! nat (cursor d)) (tokens d ! nat (cursor d + 1))
        then (True, d\<lparr>cursor := cursor d + 1\<rparr>)
      else (False, d))"

definition NextArg ::
  "(caddyfile_Token \<Rightarrow> caddyfile_Token \<Rightarrow> bool) \<Rightarrow> Dispenser \<Rightarrow> bool \<times> Dispenser" where
  "NextArg nl d =
     (case nextOnSameLine nl d of
        (False, d') \<Rightarrow> (False, d')
      | (True, d') \<Rightarrow>
          if Val d' = ''{'' then (False, d'\<lparr>cursor := cursor d' - 1\<rparr>) else (True, d'))"

text \<open>\<^verbatim>\<open>d.Args(&value)\<close> with its single target: the target keeps its value on failure.\<close>

definition Args ::
  "(caddyfile_Token \<Rightarrow> caddyfile_Token \<Rightarrow> bool) \<Rightarrow> Dispenser \<Rightarrow> string
     \<Rightarrow> bool \<times> string \<times> Dispenser" where
  "Args nl d target =
     (case NextArg nl d of
        (False, d') \<Rightarrow> (False, target, d')
      | (True, d') \<Rightarrow> (True, Val d', d'))"

text \<open>The \<^verbatim>\<open>switch key\<close> of the loop body.\<close>

definition assign :: "string \<Rightarrow> string \<Rightarrow> RestStorage \<Rightarrow> RestStorage" where
  "assign key v r =
     (if key = ''endpoint'' then r\<lparr>Endpoint := v\<rparr>
      else if key = ''token'' then r\<lparr>Token := v\<rparr>
      else r)"

lemma Next_True:
  "Next d = (True, d1) \<Longrightarrow>
     tokens d1 = tokens d \<and> cursor d1 = cursor d + 1 \<and> cursor d < int (length (tokens d)) - 1"
  by (auto simp: Next_def split: if_splits)

lemma Args_cursor:
  "Args nl d t = (b, v, d2) \<Longrightarrow> tokens d2 = tokens d \<and> cursor d \<le> cursor d2"
  by (auto simp: Args_def NextArg_def nextOnSameLine_def split: if_splits prod.splits bool.splits)

lemma Next_True_sym:
  "(True, d1) = Next d \<Longrightarrow>
     tokens d1 = tokens d \<and> cursor d1 = cursor d + 1 \<and> cursor d < int (length (tokens d)) - 1"
  using Next_True [of d d1] by simp

lemma Args_cursor_sym:
  "(b, v, d2) = Args nl d t \<Longrightarrow> tokens d2 = tokens d \<and> cursor d \<le> cursor d2"
  using Args_cursor [of nl d t b v d2] by simp

function UnmarshalCaddyfile ::
  "(caddyfile_Token \<Rightarrow> caddyfile_Token \<Rightarrow> bool) \<Rightarrow> RestStorage \<Rightarrow> Dispenser
     \<Rightarrow> error option \<times> RestStorage \<times> Dispenser" where
  "UnmarshalCaddyfile nl r d =
     (case Next d of
        (False, d1) \<Rightarrow> (None, r, d1)
      | (True, d1) \<Rightarrow>
          (let key = Val d1 in
           case Args nl d1 '''' of
             (False, value, d2) \<Rightarrow> UnmarshalCaddyfile nl r d2
           | (True, value, d2) \<Rightarrow> UnmarshalCaddyfile nl (assign key value r) d2))"
  by pat_completeness auto
termination
  by (relation "measure (\<lambda>(nl, r, d). nat (int (length (tokens d)) - cursor d))")
     (auto dest!: Next_True_sym Args_cursor_sym)

subsection \<open>Base64 (\<^verbatim>\<open>base64.StdEncoding\<close>)\<close>

text \<open>
  \<^verbatim>\<open>Store\<close> and \<^verbatim>\<open>Load\<close> pass values through Go's \<^verbatim>\<open>encoding/base64\<close> with the
  standard encoding: the alphabet of RFC 4648, \<^verbatim>\<open>=\<close> padding, decoding not strict,
  carriage returns and line feeds skipped. A byte is an \<open>8 word\<close>, Go's \<^verbatim>\<open>uint\<close> a
  \<open>64 word\<close>; the encoded text is a \<open>string\<close>.
\<close>

type_synonym byte = "8 word"
type_synonym uint = "64 word"

definition encodeStd :: string where
  "encodeStd = ''ABCDEFGHIJKLMNOPQRSTUVWXYZabcdefghijklmnopqrstuvwxyz0123456789+/''"

definition padChar :: char where
  "padChar = CHR ''=''"

text \<open>\<^verbatim>\<open>enc.encode[v]\<close> for a \<^verbatim>\<open>uint\<close> index below 64.\<close>

definition encode :: "uint \<Rightarrow> char" where
  "encode v = encodeStd ! unat v"

text \<open>
  \<^verbatim>\<open>enc.decodeMap\<close>: \<open>0xFF\<close> everywhere, then \<^verbatim>\<open>decodeMap[encoder[i]] = byte(i)\<close>.
  The alphabet has no repeated character, so the first position is the position.
\<close>

fun index_of :: "char \<Rightarrow> string \<Rightarrow> nat \<Rightarrow> nat option" where
  "index_of c [] i = None"
| "index_of c (x # xs) i = (if x = c then Some i else index_of c xs (Suc i))"

definition decodeMap :: "char \<Rightarrow> byte" where
  "decodeMap c = (case index_of c encodeStd 0 of None \<Rightarrow> 0xFF | Some i \<Rightarrow> of_nat i)"

text \<open>
  \<^verbatim>\<open>Encoding.Encode\<close>: three bytes at a time into four characters, and the one or two
  bytes that remain into two or three characters and padding.
\<close>

fun Encode :: "byte list \<Rightarrow> string" where
  "Encode (a # b # c # src) =
     (let val = push_bit 16 (ucast a :: uint) OR push_bit 8 (ucast b) OR ucast c in
      [encode (drop_bit 18 val AND 0x3F), encode (drop_bit 12 val AND 0x3F),
       encode (drop_bit 6 val AND 0x3F), encode (val AND 0x3F)]) @ Encode src"
| "Encode [a, b] =
     (let val = push_bit 16 (ucast a :: uint) OR push_bit 8 (ucast b) in
      [encode (drop_bit 18 val AND 0x3F), encode (drop_bit 12 val AND 0x3F),
       encode (drop_bit 6 val AND 0x3F), padChar])"
| "Encode [a] =
     (let val = push_bit 16 (ucast a :: uint) in
      [encode (drop_bit 18 val AND 0x3F), encode (drop_bit 12 val AND 0x3F),
       padChar, padChar])"
| "Encode [] = []"

definition EncodeToString :: "byte list \<Rightarrow> string" where
  "EncodeToString src = Encode src"

text \<open>
  The end of \<^verbatim>\<open>decodeQuantum\<close>: the (up to four) 6-bit values of \<open>dbuf\<close>, missing
  ones zero, become three bytes, of which \<open>dlen - 1\<close> are written.
\<close>

definition quantum_bytes :: "byte list \<Rightarrow> nat \<Rightarrow> byte list" where
  "quantum_bytes dbuf dlen =
     (let d = dbuf @ replicate (4 - length dbuf) 0;
          val = push_bit 18 (ucast (d ! 0) :: uint) OR push_bit 12 (ucast (d ! 1))
                OR push_bit 6 (ucast (d ! 2)) OR ucast (d ! 3)
      in take (dlen - 1) [ucast (drop_bit 16 val), ucast (drop_bit 8 val), ucast val])"

definition is_newline :: "char \<Rightarrow> bool" where
  "is_newline c = (c = CHR 0x0A \<or> c = CHR 0x0D)"

fun skip_newlines :: "string \<Rightarrow> nat \<Rightarrow> string \<times> nat" where
  "skip_newlines [] si = ([], si)"
| "skip_newlines (c # cs) si = (if is_newline c then skip_newlines cs (Suc si) else (c # cs, si))"

text \<open>
  After the padding of a quantum of \<open>j\<close> values: trailing newlines are skipped, and
  anything left is a \<^verbatim>\<open>CorruptInputError\<close>; the quantum's bytes are written either way.
\<close>

definition finish :: "nat \<Rightarrow> byte list \<Rightarrow> string \<Rightarrow> nat \<Rightarrow> byte list \<times> error option" where
  "finish j dbuf cs si =
     (case skip_newlines cs si of
        (cs', si') \<Rightarrow>
          (quantum_bytes dbuf j, if cs' \<noteq> [] then Some (CorruptInputError si') else None))"

text \<open>
  The padding branch of \<^verbatim>\<open>decodeQuantum\<close>, entered after the first \<^verbatim>\<open>=\<close> was read
  (\<open>si\<close> is already past it) with \<open>j\<close> values in \<open>dbuf\<close>.
\<close>

definition padding :: "nat \<Rightarrow> byte list \<Rightarrow> string \<Rightarrow> nat \<Rightarrow> byte list \<times> error option" where
  "padding j dbuf cs si =
     (if j = 0 \<or> j = 1 then ([], Some (CorruptInputError (si - 1)))
      else if j = 2 then
        (case skip_newlines cs si of
           ([], si') \<Rightarrow> ([], Some (CorruptInputError si'))
         | (c # cs', si') \<Rightarrow>
             if c \<noteq> padChar then ([], Some (CorruptInputError (si' - 1)))
             else finish j dbuf cs' (Suc si'))
      else finish j dbuf cs si)"

text \<open>
  \<^verbatim>\<open>Encoding.Decode\<close> as the loop over \<^verbatim>\<open>decodeQuantum\<close> (its 8- and 4-character
  fast paths compute the same bytes): \<open>j\<close> values of the current quantum are in \<open>dbuf\<close>,
  \<open>si\<close> is the offset of the next character. The result is the bytes written and the
  error, as \<^verbatim>\<open>DecodeString\<close> returns them.
\<close>

fun Decode :: "nat \<Rightarrow> byte list \<Rightarrow> string \<Rightarrow> nat \<Rightarrow> byte list \<times> error option" where
  "Decode j dbuf [] si =
     (if j = 0 then ([], None) else ([], Some (CorruptInputError (si - j))))"
| "Decode j dbuf (c # cs) si =
     (let out = decodeMap c in
      if out \<noteq> 0xFF then
        (if j = 3 then
           (case Decode 0 [] cs (Suc si) of
              (bs, err) \<Rightarrow> (quantum_bytes (dbuf @ [out]) 4 @ bs, err))
         else Decode (Suc j) (dbuf @ [out]) cs (Suc si))
      else if is_newline c then Decode j dbuf cs (Suc si)
      else if c \<noteq> padChar then ([], Some (CorruptInputError si))
      else padding j dbuf cs (Suc si))"

definition DecodeString :: "string \<Rightarrow> byte list \<times> error option" where
  "DecodeString s = Decode 0 [] s 0"

subsection \<open>Formatted errors\<close>

text \<open>
  \<^verbatim>\<open>fmt.Errorf("Unknown status code received: {}", resp.StatusCode)\<close>: the format has
  no verb, so \<^verbatim>\<open>fmt\<close> writes it as it is and reports the unused \<^verbatim>\<open>int\<close> operand after it,
  as \<^verbatim>\<open>%!(EXTRA int=500)\<close>, the operand in decimal. \<open>Itoa\<close> is that decimal text.
\<close>

definition digit :: "nat \<Rightarrow> char" where
  "digit d = ''0123456789'' ! d"

fun digits :: "nat \<Rightarrow> string" where
  "digits n = (if n < 10 then [digit n] else digits (n div 10) @ [digit (n mod 10)])"

declare digits.simps [simp del]

definition Itoa :: "int \<Rightarrow> string" where
  "Itoa i = (if i < 0 then CHR ''-'' # digits (nat (- i)) else digits (nat i))"

definition Errorf :: "string \<Rightarrow> int \<Rightarrow> error" where
  "Errorf format a = ErrorString (format @ ''%!(EXTRA int='' @ Itoa a @ '')'')"

definition unknown_status :: string where
  "unknown_status = ''Unknown status code received: {}''"

text \<open>
  Reading the status code back from an error value: the message of an
  \<^verbatim>\<open>Unknown status code\<close> error without its fixed prefix and its closing parenthesis,
  as a decimal number. This is not code of the adapter; it states what a caller can
  recover.
\<close>

fun number :: "nat \<Rightarrow> string \<Rightarrow> nat option" where
  "number acc [] = Some acc"
| "number acc (c # cs) =
     (case index_of c ''0123456789'' 0 of
        None \<Rightarrow> None
      | Some d \<Rightarrow> number (acc * 10 + d) cs)"

definition Atoi :: "string \<Rightarrow> int option" where
  "Atoi s =
     (case s of
        [] \<Rightarrow> None
      | c # cs \<Rightarrow>
          if c = CHR ''-'' then
            (if cs = [] then None else map_option (\<lambda>n. - int n) (number 0 cs))
          else map_option int (number 0 s))"

fun strip_prefix :: "string \<Rightarrow> string \<Rightarrow> string option" where
  "strip_prefix [] s = Some s"
| "strip_prefix (p # ps) [] = None"
| "strip_prefix (p # ps) (c # cs) = (if p = c then strip_prefix ps cs else None)"

definition status_of :: "error \<Rightarrow> int option" where
  "status_of e =
     (case e of
        ErrorString m \<Rightarrow>
          (case strip_prefix (unknown_status @ ''%!(EXTRA int='') m of
             None \<Rightarrow> None
           | Some rest \<Rightarrow>
               if rest \<noteq> [] \<and> last rest = CHR '')'' then Atoi (butlast rest) else None)
      | _ \<Rightarrow> None)"

subsection \<open>Requests, responses and the remote service\<close>

text \<open>
  The request and response records of the wire protocol. Each \<^verbatim>\<open>...Request\<close> struct
  is a constructor of \<open>Payload\<close>, the type of what \<^verbatim>\<open>json.Marshal\<close> is given, with the
  struct's fields in their order: \<^verbatim>\<open>Key, Token\<close>; for \<^verbatim>\<open>StoreRequest\<close>
  \<^verbatim>\<open>Key, Value, Token\<close>; for \<^verbatim>\<open>ListRequest\<close> \<^verbatim>\<open>Prefix, Recursive, Token\<close>.
\<close>

datatype Payload =
    LockRequest string string
  | UnlockRequest string string
  | StoreRequest string string string
  | LoadRequest string string
  | DeleteRequest string string
  | ExistsRequest string string
  | ListRequest string bool string
  | StatRequest string string

datatype LoadResponse = LoadResponse (Value: string)

datatype ExistsResponse = ExistsResponse (Exists: bool)

datatype ListResponse = ListResponse (Keys: "string list")

text \<open>\<^verbatim>\<open>StatResponse\<close>: \<^verbatim>\<open>Key, Modified, Size, IsTerminal\<close>; \<^verbatim>\<open>Size\<close> is an \<^verbatim>\<open>int64\<close>.\<close>

datatype StatResponse = StatResponse string string "64 word" bool

text \<open>
  \<^verbatim>\<open>time.Time\<close> is the instant \<^verbatim>\<open>time.Parse\<close> returns; \<^verbatim>\<open>certmagic.KeyInfo\<close> has the
  fields \<^verbatim>\<open>Key, Modified, Size, IsTerminal\<close>.
\<close>

datatype Time = Instant int

record KeyInfo =
  Key :: string
  Modified :: Time
  Size :: "64 word"
  IsTerminal :: bool

text \<open>The caller's \<^verbatim>\<open>context.Context\<close>, an opaque handle carried by every request.\<close>

datatype Context = Context nat

record Request =
  Ctx :: Context
  Method :: string
  URL :: string
  Header :: "(string \<times> string) list"
  Content :: string

record Response =
  StatusCode :: int
  Body :: string

text \<open>
  The functions of Go's standard library whose results the adapter only passes on are
  parameters: whether \<^verbatim>\<open>url.Parse\<close> rejects a URL (with the message), \<^verbatim>\<open>json.Marshal\<close>,
  \<^verbatim>\<open>json.NewDecoder(resp.Body).Decode\<close> at each of the four response types, and
  \<^verbatim>\<open>time.Parse\<close> (layout, then value). An \<open>Inl\<close> is the library's error message.
\<close>

record Lib =
  url_Parse :: "string \<Rightarrow> string option"
  json_Marshal :: "Payload \<Rightarrow> string + string"
  Decode_LoadResponse :: "string \<Rightarrow> string + LoadResponse"
  Decode_ExistsResponse :: "string \<Rightarrow> string + ExistsResponse"
  Decode_ListResponse :: "string \<Rightarrow> string + ListResponse"
  Decode_StatResponse :: "string \<Rightarrow> string + StatResponse"
  time_Parse :: "string \<Rightarrow> string \<Rightarrow> string + Time"

definition RFC3339 :: string where
  "RFC3339 = ''2006-01-02T15:04:05Z07:00''"

text \<open>
  \<^verbatim>\<open>http.NewRequestWithContext\<close> with a valid method and a context that is not nil: it
  fails when the URL does not parse, and otherwise returns the request.
\<close>

definition NewRequestWithContext ::
  "Lib \<Rightarrow> Context \<Rightarrow> string \<Rightarrow> string \<Rightarrow> string \<Rightarrow> error + Request" where
  "NewRequestWithContext L ctx method url body =
     (case url_Parse L url of
        Some m \<Rightarrow> Inl (RequestError m)
      | None \<Rightarrow> Inr \<lparr>Ctx = ctx, Method = method, URL = url, Header = [], Content = body\<rparr>)"

definition Header_Add :: "Request \<Rightarrow> string \<Rightarrow> string \<Rightarrow> Request" where
  "Header_Add req k v = req\<lparr>Header := Header req @ [(k, v)]\<rparr>"

text \<open>
  The remote service, as the adapter meets it through \<^verbatim>\<open>r.client.Do\<close>: \<open>respond w n req\<close>
  is the outcome of the call number \<open>n\<close> (a transport error, a cancelled context
  included, or a response), and \<open>sent\<close> logs the requests handed to \<^verbatim>\<open>Do\<close>, in order.
\<close>

record Remote =
  respond :: "nat \<Rightarrow> Request \<Rightarrow> string + Response"
  sent :: "Request list"

definition Do :: "Remote \<Rightarrow> Request \<Rightarrow> (error + Response) \<times> Remote" where
  "Do w req =
     (case respond w (length (sent w)) req of
        Inl m \<Rightarrow> (Inl (DoError m), w\<lparr>sent := sent w @ [req]\<rparr>)
      | Inr resp \<Rightarrow> (Inr resp, w\<lparr>sent := sent w @ [req]\<rparr>))"

subsection \<open>The storage operations\<close>

text \<open>
  Each operation returns its result and the remote after it. \<^verbatim>\<open>Lock\<close> marshals the
  request once and then loops; the loop has no bound, so it is a partial function and
  \<open>None\<close> is the run that never returns.
\<close>

partial_function (option) Lock_loop ::
  "Lib \<Rightarrow> RestStorage \<Rightarrow> Context \<Rightarrow> string \<Rightarrow> Remote \<Rightarrow> (error option \<times> Remote) option" where
  "Lock_loop L r ctx lockReq w =
     (case NewRequestWithContext L ctx ''POST'' (Endpoint r @ ''lock'') lockReq of
        Inl err \<Rightarrow> Some (Some err, w)
      | Inr req \<Rightarrow>
          (case Do w (Header_Add req ''Content-Type'' ''application/json'') of
             (Inl err, w') \<Rightarrow> Some (Some err, w')
           | (Inr resp, w') \<Rightarrow>
               if StatusCode resp = 201 then Some (None, w')
               else if StatusCode resp \<noteq> 412
                 then Some (Some (Errorf unknown_status (StatusCode resp)), w')
               else Lock_loop L r ctx lockReq w'))"

definition Lock ::
  "Lib \<Rightarrow> RestStorage \<Rightarrow> Context \<Rightarrow> string \<Rightarrow> Remote \<Rightarrow> (error option \<times> Remote) option" where
  "Lock L r ctx key w =
     (case json_Marshal L (LockRequest key (Token r)) of
        Inl m \<Rightarrow> Some (Some (MarshalError m), w)
      | Inr lockReq \<Rightarrow> Lock_loop L r ctx lockReq w)"

definition Unlock ::
  "Lib \<Rightarrow> RestStorage \<Rightarrow> Context \<Rightarrow> string \<Rightarrow> Remote \<Rightarrow> error option \<times> Remote" where
  "Unlock L r ctx key w =
     (case json_Marshal L (UnlockRequest key (Token r)) of
        Inl m \<Rightarrow> (Some (MarshalError m), w)
      | Inr unlockReq \<Rightarrow>
          (case NewRequestWithContext L ctx ''POST'' (Endpoint r @ ''unlock'') unlockReq of
             Inl err \<Rightarrow> (Some err, w)
           | Inr req \<Rightarrow>
               (case Do w (Header_Add req ''Content-Type'' ''application/json'') of
                  (Inl err, w') \<Rightarrow> (Some err, w')
                | (Inr resp, w') \<Rightarrow>
                    if StatusCode resp \<noteq> 204
                      then (Some (Errorf unknown_status (StatusCode resp)), w')
                    else (None, w'))))"

definition Store ::
  "Lib \<Rightarrow> RestStorage \<Rightarrow> Context \<Rightarrow> string \<Rightarrow> byte list \<Rightarrow> Remote \<Rightarrow> error option \<times> Remote" where
  "Store L r ctx key v w =
     (let valueEnc = EncodeToString v in
      case json_Marshal L (StoreRequest key valueEnc (Token r)) of
        Inl m \<Rightarrow> (Some (MarshalError m), w)
      | Inr storeReq \<Rightarrow>
          (case NewRequestWithContext L ctx ''POST'' (Endpoint r @ ''store'') storeReq of
             Inl err \<Rightarrow> (Some err, w)
           | Inr req \<Rightarrow>
               (case Do w (Header_Add req ''Content-Type'' ''application/json'') of
                  (Inl err, w') \<Rightarrow> (Some err, w')
                | (Inr resp, w') \<Rightarrow>
                    if StatusCode resp \<noteq> 201
                      then (Some (Errorf unknown_status (StatusCode resp)), w')
                    else (None, w'))))"

definition Load ::
  "Lib \<Rightarrow> RestStorage \<Rightarrow> Context \<Rightarrow> string \<Rightarrow> Remote \<Rightarrow> (error + byte list) \<times> Remote" where
  "Load L r ctx key w =
     (case json_Marshal L (LoadRequest key (Token r)) of
        Inl m \<Rightarrow> (Inl (MarshalError m), w)
      | Inr loadReq \<Rightarrow>
          (case NewRequestWithContext L ctx ''POST'' (Endpoint r @ ''load'') loadReq of
             Inl err \<Rightarrow> (Inl err, w)
           | Inr req \<Rightarrow>
               (case Do w (Header_Add req ''Content-Type'' ''application/json'') of
                  (Inl err, w') \<Rightarrow> (Inl err, w')
                | (Inr resp, w') \<Rightarrow>
                    if StatusCode resp = 404 then (Inl ErrNotExist, w')
                    else if StatusCode resp \<noteq> 200
                      then (Inl (Errorf unknown_status (StatusCode resp)), w')
                    else
                      (case Decode_LoadResponse L (Body resp) of
                         Inl m \<Rightarrow> (Inl (DecodeError m), w')
                       | Inr loadResp \<Rightarrow>
                           (case DecodeString (Value loadResp) of
                              (valueDec, Some err) \<Rightarrow> (Inl err, w')
                            | (valueDec, None) \<Rightarrow> (Inr valueDec, w'))))))"

definition Delete ::
  "Lib \<Rightarrow> RestStorage \<Rightarrow> Context \<Rightarrow> string \<Rightarrow> Remote \<Rightarrow> error option \<times> Remote" where
  "Delete L r ctx key w =
     (case json_Marshal L (DeleteRequest key (Token r)) of
        Inl m \<Rightarrow> (Some (MarshalError m), w)
      | Inr deleteReq \<Rightarrow>
          (case NewRequestWithContext L ctx ''POST'' (Endpoint r @ ''delete'') deleteReq of
             Inl err \<Rightarrow> (Some err, w)
           | Inr req \<Rightarrow>
               (case Do w (Header_Add req ''Content-Type'' ''application/json'') of
                  (Inl err, w') \<Rightarrow> (Some err, w')
                | (Inr resp, w') \<Rightarrow>
                    if StatusCode resp = 404 then (Some ErrNotExist, w')
                    else if StatusCode resp \<noteq> 204
                      then (Some (Errorf unknown_status (StatusCode resp)), w')
                    else (None, w'))))"

definition Exists_op ::
  "Lib \<Rightarrow> RestStorage \<Rightarrow> Context \<Rightarrow> string \<Rightarrow> Remote \<Rightarrow> bool \<times> Remote" where
  "Exists_op L r ctx key w =
     (case json_Marshal L (ExistsRequest key (Token r)) of
        Inl m \<Rightarrow> (False, w)
      | Inr existsReq \<Rightarrow>
          (case NewRequestWithContext L ctx ''POST'' (Endpoint r @ ''exists'') existsReq of
             Inl err \<Rightarrow> (False, w)
           | Inr req \<Rightarrow>
               (case Do w (Header_Add req ''Content-Type'' ''application/json'') of
                  (Inl err, w') \<Rightarrow> (False, w')
                | (Inr resp, w') \<Rightarrow>
                    if StatusCode resp \<noteq> 200 then (False, w')
                    else
                      (case Decode_ExistsResponse L (Body resp) of
                         Inl m \<Rightarrow> (False, w')
                       | Inr existsResp \<Rightarrow> (Exists existsResp, w')))))"

definition List_op ::
  "Lib \<Rightarrow> RestStorage \<Rightarrow> Context \<Rightarrow> string \<Rightarrow> bool \<Rightarrow> Remote
     \<Rightarrow> (error + string list) \<times> Remote" where
  "List_op L r ctx prefix recursive w =
     (case json_Marshal L (ListRequest prefix recursive (Token r)) of
        Inl m \<Rightarrow> (Inl (MarshalError m), w)
      | Inr listReq \<Rightarrow>
          (case NewRequestWithContext L ctx ''POST'' (Endpoint r @ ''list'') listReq of
             Inl err \<Rightarrow> (Inl err, w)
           | Inr req \<Rightarrow>
               (case Do w (Header_Add req ''Content-Type'' ''application/json'') of
                  (Inl err, w') \<Rightarrow> (Inl err, w')
                | (Inr resp, w') \<Rightarrow>
                    if StatusCode resp = 404 then (Inl ErrNotExist, w')
                    else if StatusCode resp \<noteq> 200
                      then (Inl (Errorf unknown_status (StatusCode resp)), w')
                    else
                      (case Decode_ListResponse L (Body resp) of
                         Inl m \<Rightarrow> (Inl (DecodeError m), w')
                       | Inr listResp \<Rightarrow> (Inr (Keys listResp), w')))))"

definition Stat ::
  "Lib \<Rightarrow> RestStorage \<Rightarrow> Context \<Rightarrow> string \<Rightarrow> Remote \<Rightarrow> (error + KeyInfo) \<times> Remote" where
  "Stat L r ctx key w =
     (case json_Marshal L (StatRequest key (Token r)) of
        Inl m \<Rightarrow> (Inl (MarshalError m), w)
      | Inr statReq \<Rightarrow>
          (case NewRequestWithContext L ctx ''POST'' (Endpoint r @ ''stat'') statReq of
             Inl err \<Rightarrow> (Inl err, w)
           | Inr req \<Rightarrow>
               (case Do w (Header_Add req ''Content-Type'' ''application/json'') of
                  (Inl err, w') \<Rightarrow> (Inl err, w')
                | (Inr resp, w') \<Rightarrow>
                    if StatusCode resp = 404 then (Inl ErrNotExist, w')
                    else if StatusCode resp \<noteq> 200
                      then (Inl (Errorf unknown_status (StatusCode resp)), w')
                    else
                      (case Decode_StatResponse L (Body resp) of
                         Inl m \<Rightarrow> (Inl (DecodeError m), w')
                       | Inr (StatResponse k modified sz terminal) \<Rightarrow>
                           (case time_Parse L RFC3339 modified of
                              Inl m \<Rightarrow> (Inl (ParseError m), w')
                            | Inr parsedTime \<Rightarrow>
                                (Inr \<lparr>Key = k, Modified = parsedTime, Size = sz,
                                      IsTerminal = terminal\<rparr>, w'))))))"

section \<open>Notions for the statements\<close>

subsection \<open>Directives and their arguments\<close>

text \<open>
  A token \<open>i\<close> has an argument when the next token is on its line and does not open a
  block; \<open>recognized\<close> are the two keys of the \<^verbatim>\<open>switch\<close>; \<open>remaining\<close> is what the loop
  consumes.
\<close>

definition has_arg :: "(caddyfile_Token \<Rightarrow> caddyfile_Token \<Rightarrow> bool) \<Rightarrow> caddyfile_Token list \<Rightarrow> nat \<Rightarrow> bool" where
  "has_arg nl ts i =
     (i + 1 < length ts \<and> \<not> nl (ts ! i) (ts ! (i + 1)) \<and> Text (ts ! (i + 1)) \<noteq> ''{'')"

definition recognized :: "string \<Rightarrow> bool" where
  "recognized key = (key = ''endpoint'' \<or> key = ''token'')"

definition remaining :: "Dispenser \<Rightarrow> nat" where
  "remaining d = nat (int (length (tokens d)) - cursor d)"

subsection \<open>Groups of three bytes\<close>

text \<open>
  \<open>val3\<close> is the 24-bit value the encoder makes of three bytes; \<open>six k\<close> is the index
  into the alphabet that it takes at bit \<open>k\<close> of that value, and \<open>sextet k\<close> the same
  six bits as the byte the decoder finds in its table.
\<close>

definition val3 :: "byte \<Rightarrow> byte \<Rightarrow> byte \<Rightarrow> uint" where
  "val3 a b c = push_bit 16 (ucast a) OR push_bit 8 (ucast b) OR ucast c"

definition sextet :: "nat \<Rightarrow> uint \<Rightarrow> byte" where
  "sextet k v = ucast (drop_bit k v AND mask 6)"

definition six :: "nat \<Rightarrow> uint \<Rightarrow> uint" where
  "six k v = drop_bit k v AND 0x3F"

subsection \<open>Requests and answers\<close>

text \<open>
  \<open>post_request\<close> is the request every operation hands to \<^verbatim>\<open>client.Do\<close>;
  \<open>posted w req n\<close> is the remote after \<open>n\<close> more calls with \<open>req\<close>; \<open>refused w req n\<close>
  says that the next \<open>n\<close> calls are answered with status 412; \<open>lock_result\<close> is what
  \<^verbatim>\<open>Lock\<close> returns on an answer that is not a 412; \<open>ended\<close> says that the loop returned
  \<open>y\<close> on the first such answer.
\<close>

definition post_request :: "Context \<Rightarrow> string \<Rightarrow> string \<Rightarrow> Request" where
  "post_request ctx url body =
     \<lparr>Ctx = ctx, Method = ''POST'', URL = url,
      Header = [(''Content-Type'', ''application/json'')], Content = body\<rparr>"

definition is_412 :: "string + Response \<Rightarrow> bool" where
  "is_412 out = (case out of Inl m \<Rightarrow> False | Inr resp \<Rightarrow> StatusCode resp = 412)"

definition lock_result :: "string + Response \<Rightarrow> error option" where
  "lock_result out =
     (case out of
        Inl m \<Rightarrow> Some (DoError m)
      | Inr resp \<Rightarrow>
          if StatusCode resp = 201 then None
          else Some (Errorf unknown_status (StatusCode resp)))"

definition posted :: "Remote \<Rightarrow> Request \<Rightarrow> nat \<Rightarrow> Remote" where
  "posted w req n = w\<lparr>sent := sent w @ replicate n req\<rparr>"

definition refused :: "Remote \<Rightarrow> Request \<Rightarrow> nat \<Rightarrow> bool" where
  "refused w req n = (\<forall>i<n. is_412 (respond w (length (sent w) + i) req))"

definition ended ::
  "Lib \<Rightarrow> RestStorage \<Rightarrow> Context \<Rightarrow> string \<Rightarrow> Remote \<Rightarrow> error option \<times> Remote \<Rightarrow> bool" where
  "ended L r ctx body w y =
     (\<exists>n. refused w (post_request ctx (Endpoint r @ ''lock'') body) n
        \<and> \<not> is_412 (respond w (length (sent w) + n)
              (post_request ctx (Endpoint r @ ''lock'') body))
        \<and> y = (lock_result (respond w (length (sent w) + n)
                  (post_request ctx (Endpoint r @ ''lock'') body)),
               posted w (post_request ctx (Endpoint r @ ''lock'') body) (Suc n)))"

subsection \<open>Concrete inputs\<close>

text \<open>
  A library for the examples: every URL parses, \<^verbatim>\<open>json.Marshal\<close> writes a fixed text,
  the decoders read the body as the one field that matters, and \<^verbatim>\<open>time.Parse\<close> knows
  one timestamp. \<open>always s\<close> is the remote that answers every call with status \<open>s\<close>,
  \<open>after n s\<close> the remote that answers 412 to the first \<open>n\<close> calls and \<open>s\<close> from then on,
  \<open>down\<close> the remote that cannot be reached, and \<open>cancelled n\<close> the one whose calls end
  with the error of a cancelled context once \<open>n\<close> calls were answered 412.
\<close>

definition lib0 :: Lib where
  "lib0 =
     \<lparr>url_Parse = (\<lambda>u. None),
      json_Marshal = (\<lambda>p. Inr ''{}''),
      Decode_LoadResponse = (\<lambda>b. Inr (LoadResponse b)),
      Decode_ExistsResponse =
        (\<lambda>b. if b = ''true'' then Inr (ExistsResponse True)
             else if b = ''false'' then Inr (ExistsResponse False)
             else Inl ''invalid character''),
      Decode_ListResponse = (\<lambda>b. Inr (ListResponse [b])),
      Decode_StatResponse = (\<lambda>b. Inr (StatResponse ''k'' b 5 True)),
      time_Parse =
        (\<lambda>layout v. if v = ''2023-05-01T12:00:00Z'' then Inr (Instant 1682942400)
                     else Inl ''cannot parse'')\<rparr>"

definition r0 :: RestStorage where
  "r0 = \<lparr>Endpoint = ''http://kv/'', Token = ''t''\<rparr>"

definition after :: "nat \<Rightarrow> int \<Rightarrow> string \<Rightarrow> Remote" where
  "after n s b =
     \<lparr>respond = (\<lambda>i req. Inr \<lparr>StatusCode = (if i < n then 412 else s), Body = b\<rparr>),
      sent = []\<rparr>"

definition always :: "int \<Rightarrow> string \<Rightarrow> Remote" where
  "always s b = after 0 s b"

definition down :: Remote where
  "down = \<lparr>respond = (\<lambda>i req. Inl ''connection refused''), sent = []\<rparr>"


text \<open>
  A Caddyfile of three lines, \<^verbatim>\<open>endpoint\<close> and \<^verbatim>\<open>token\<close> without an argument and an
  unknown directive with one; tokens are on a new line when the file or the line number
  changes. \<open>lock0\<close> is the request that \<^verbatim>\<open>Lock\<close> sends with \<open>lib0\<close> and \<open>r0\<close>.
\<close>

definition tok :: "int \<Rightarrow> string \<Rightarrow> caddyfile_Token" where
  "tok l t = \<lparr>File = ''Caddyfile'', Line = l, Text = t\<rparr>"

definition by_line :: "caddyfile_Token \<Rightarrow> caddyfile_Token \<Rightarrow> bool" where
  "by_line a b = (File a \<noteq> File b \<or> Line a < Line b)"

definition caddyfile0 :: Dispenser where
  "caddyfile0 = \<lparr>tokens = [tok 1 ''endpoint'', tok 2 ''root'', tok 2 ''/srv'', tok 3 ''token''],
         cursor = -1\<rparr>"

definition lock0 :: Request where
  "lock0 = post_request (Context 0) ''http://kv/lock'' ''{}''"

section \<open>Properties\<close>

subsection \<open>The dispenser loop\<close>

lemma assign_other: "\<not> recognized key \<Longrightarrow> assign key v r = r"
  by (simp add: assign_def recognized_def)

lemma Val_recognized:
  "recognized (Val d) \<Longrightarrow>
     0 \<le> cursor d \<and> nat (cursor d) < length (tokens d)
     \<and> Text (tokens d ! nat (cursor d)) = Val d"
  by (auto simp: Val_def recognized_def split: if_splits)

lemma Args_True:
  "Args nl d t = (True, v, d2) \<Longrightarrow> 0 \<le> cursor d \<Longrightarrow> has_arg nl (tokens d) (nat (cursor d))"
  by (auto simp: Args_def NextArg_def nextOnSameLine_def Val_def has_arg_def nat_add_distrib
      split: if_splits prod.splits bool.splits)

declare UnmarshalCaddyfile.simps [simp del]

lemma UnmarshalCaddyfile_stop:
  "Next d = (False, d1) \<Longrightarrow> UnmarshalCaddyfile nl r d = (None, r, d1)"
  by (simp add: UnmarshalCaddyfile.simps [of nl r d])

lemma UnmarshalCaddyfile_skip:
  "Next d = (True, d1) \<Longrightarrow> Args nl d1 '''' = (False, v, d2)
     \<Longrightarrow> UnmarshalCaddyfile nl r d = UnmarshalCaddyfile nl r d2"
  by (simp add: UnmarshalCaddyfile.simps [of nl r d])

lemma UnmarshalCaddyfile_assign:
  "Next d = (True, d1) \<Longrightarrow> Args nl d1 '''' = (True, v, d2)
     \<Longrightarrow> UnmarshalCaddyfile nl r d = UnmarshalCaddyfile nl (assign (Val d1) v r) d2"
  by (simp add: UnmarshalCaddyfile.simps [of nl r d])

lemma remaining_less:
  assumes "Next d = (True, d1)" "Args nl d1 t = (ok, v, d2)"
  shows "remaining d2 < remaining d" "tokens d2 = tokens d"
  using Next_True [OF assms(1)] Args_cursor [OF assms(2)] by (simp_all add: remaining_def)

lemma UnmarshalCaddyfile_nil: "fst (UnmarshalCaddyfile nl r d) = None"
proof (induction "remaining d" arbitrary: r d rule: less_induct)
  case less
  obtain b d1 where n: "Next d = (b, d1)"
    by (cases "Next d") auto
  show ?case
  proof (cases b)
    case False
    with n show ?thesis by (simp add: UnmarshalCaddyfile_stop)
  next
    case True
    obtain ok v d2 where a: "Args nl d1 '''' = (ok, v, d2)"
      by (cases "Args nl d1 ''''") auto
    from n True have n': "Next d = (True, d1)" by simp
    have "remaining d2 < remaining d"
      by (rule remaining_less(1) [OF n' a])
    then have ih: "fst (UnmarshalCaddyfile nl r' d2) = None" for r'
      by (rule less)
    from n True a ih show ?thesis
      by (cases ok) (simp_all add: UnmarshalCaddyfile_skip UnmarshalCaddyfile_assign)
  qed
qed

lemma UnmarshalCaddyfile_unchanged:
  assumes "\<forall>i < length (tokens d). recognized (Text (tokens d ! i)) \<longrightarrow> \<not> has_arg nl (tokens d) i"
  shows "fst (snd (UnmarshalCaddyfile nl r d)) = r"
  using assms
proof (induction "remaining d" arbitrary: d rule: less_induct)
  case less
  obtain b d1 where n: "Next d = (b, d1)"
    by (cases "Next d") auto
  show ?case
  proof (cases b)
    case False
    with n show ?thesis by (simp add: UnmarshalCaddyfile_stop)
  next
    case True
    obtain ok v d2 where a: "Args nl d1 '''' = (ok, v, d2)"
      by (cases "Args nl d1 ''''") auto
    from n True have n': "Next d = (True, d1)" by simp
    have m: "remaining d2 < remaining d" and t2: "tokens d2 = tokens d"
      by (rule remaining_less [OF n' a])+
    have t1: "tokens d1 = tokens d"
      using Next_True [of d d1] n True by simp
    from less.prems t2 have ih: "fst (snd (UnmarshalCaddyfile nl r d2)) = r"
      by (intro less.hyps [OF m]) simp
    show ?thesis
    proof (cases ok)
      case False
      with n True a ih show ?thesis by (simp add: UnmarshalCaddyfile_skip)
    next
      case ok: True
      have "\<not> recognized (Val d1)"
      proof
        assume k: "recognized (Val d1)"
        from Val_recognized [OF k] Args_True [of nl d1 "''''" v d2] a ok
        have "has_arg nl (tokens d1) (nat (cursor d1))" by simp
        with Val_recognized [OF k] k less.prems t1 show False by auto
      qed
      then have "assign (Val d1) v r = r" by (rule assign_other)
      with n True a ok ih show ?thesis by (simp add: UnmarshalCaddyfile_assign)
    qed
  qed
qed

subsection \<open>Base64 decoding inverts encoding\<close>

lemma mask6: "(0x3F :: uint) = mask 6"
  by (simp add: mask_eq_exp_minus_1)

lemma byte_bit: "bit (a :: byte) k \<Longrightarrow> k < 8"
  using bit_imp_le_length [of a k] by simp

lemma index_of_nth:
  "distinct xs \<Longrightarrow> n < length xs \<Longrightarrow> index_of (xs ! n) xs i = Some (i + n)"
proof (induction xs arbitrary: n i)
  case Nil
  then show ?case by simp
next
  case (Cons x xs)
  show ?case
  proof (cases n)
    case 0
    then show ?thesis by simp
  next
    case (Suc m)
    with Cons.prems have "xs ! m \<in> set xs" "x \<notin> set xs" by simp_all
    then have "x \<noteq> xs ! m" by blast
    with Suc Cons show ?thesis by simp
  qed
qed

lemma distinct_encodeStd: "distinct encodeStd"
  by (simp add: encodeStd_def)

lemma length_encodeStd: "length encodeStd = 64"
  by (simp add: encodeStd_def)

lemma sextet_less: "unat (x AND (0x3F :: uint)) < 64"
proof -
  have "x AND 0x3F \<le> (0x3F :: uint)"
    by (rule word_and_le1)
  then have "unat (x AND 0x3F) \<le> unat (0x3F :: uint)"
    by (simp add: word_le_nat_alt)
  then show ?thesis by simp
qed

lemma decodeMap_encode:
  assumes "unat v < 64"
  shows "decodeMap (encode v) = ucast v" and "decodeMap (encode v) \<noteq> 0xFF"
proof -
  have i: "index_of (encodeStd ! unat v) encodeStd 0 = Some (unat v)"
    using index_of_nth [OF distinct_encodeStd, of "unat v" 0] assms
    by (simp add: length_encodeStd)
  then show eq: "decodeMap (encode v) = ucast v"
    by (simp add: decodeMap_def encode_def)
  have "unat (ucast v :: byte) = unat v"
    using assms by (simp add: unsigned_ucast_eq take_bit_nat_eq_self)
  then have "unat (ucast v :: byte) \<noteq> unat (0xFF :: byte)"
    using assms by simp
  then have "(ucast v :: byte) \<noteq> 0xFF"
    by metis
  with eq show "decodeMap (encode v) \<noteq> 0xFF" by simp
qed

lemma decodeMap_padChar: "decodeMap padChar = 0xFF"
  by (simp add: decodeMap_def padChar_def encodeStd_def)

lemma padChar_not_newline: "\<not> is_newline padChar"
  by (simp add: is_newline_def padChar_def)

lemma bit_ranges:
  fixes n :: nat
  obtains "n < 6" | m where "n = 6 + m" "m < 2" | m where "n = 8 + m" "m < 4"
    | m where "n = 12 + m" "m < 4" | m where "n = 16 + m" "m < 2"
    | m where "n = 18 + m" "m < 6" | m where "n = 24 + m"
proof -
  have "n < 6 \<or> (\<exists>m. n = 6 + m \<and> m < 2) \<or> (\<exists>m. n = 8 + m \<and> m < 4)
      \<or> (\<exists>m. n = 12 + m \<and> m < 4) \<or> (\<exists>m. n = 16 + m \<and> m < 2)
      \<or> (\<exists>m. n = 18 + m \<and> m < 6) \<or> (\<exists>m. n = 24 + m)"
    by presburger
  then show ?thesis using that by blast
qed

lemma regroup:
  "push_bit 18 (ucast (sextet 18 (val3 a b c)) :: uint)
     OR push_bit 12 (ucast (sextet 12 (val3 a b c)))
     OR push_bit 6 (ucast (sextet 6 (val3 a b c)))
     OR ucast (sextet 0 (val3 a b c)) = val3 a b c"
proof (rule bit_word_eqI)
  fix n :: nat
  show "bit (push_bit 18 (ucast (sextet 18 (val3 a b c)) :: uint)
     OR push_bit 12 (ucast (sextet 12 (val3 a b c)))
     OR push_bit 6 (ucast (sextet 6 (val3 a b c)))
     OR ucast (sextet 0 (val3 a b c))) n = bit (val3 a b c) n"
    by (cases n rule: bit_ranges) (auto simp: val3_def sextet_def bit_simps dest: byte_bit)
qed

lemma val3_bytes:
  "ucast (drop_bit 16 (val3 a b c)) = a"
  "ucast (drop_bit 8 (val3 a b c)) = b"
  "ucast (val3 a b c) = c"
proof -
  show "ucast (drop_bit 16 (val3 a b c)) = a"
    by (rule bit_word_eqI) (auto simp: val3_def bit_simps dest: byte_bit)
  show "ucast (drop_bit 8 (val3 a b c)) = b"
    by (rule bit_word_eqI) (auto simp: val3_def bit_simps dest: byte_bit)
  show "ucast (val3 a b c) = c"
    by (rule bit_word_eqI) (auto simp: val3_def bit_simps dest: byte_bit)
qed

lemma sextet_zero:
  "sextet 0 (val3 a b 0) = 0"
  "sextet 6 (val3 a 0 0) = 0"
proof -
  show "sextet 0 (val3 a b 0) = 0"
    by (rule bit_word_eqI) (auto simp: val3_def sextet_def bit_simps dest: byte_bit)
  show "sextet 6 (val3 a 0 0) = 0"
    by (rule bit_word_eqI) (auto simp: val3_def sextet_def bit_simps dest: byte_bit)
qed

lemma Decode_step:
  assumes "unat s < 64"
  shows "Decode j dbuf (encode s # cs) si =
     (if j = 3 then
        (case Decode 0 [] cs (Suc si) of
           (bs, err) \<Rightarrow> (quantum_bytes (dbuf @ [ucast s]) 4 @ bs, err))
      else Decode (Suc j) (dbuf @ [ucast s]) cs (Suc si))"
  using decodeMap_encode [OF assms] by (simp add: Let_def)

lemma Decode_pad:
  "Decode j dbuf (padChar # cs) si = padding j dbuf cs (Suc si)"
  by (simp add: decodeMap_padChar padChar_not_newline)

lemma Decode_quad:
  assumes "unat s0 < 64" "unat s1 < 64" "unat s2 < 64" "unat s3 < 64"
  shows "Decode 0 [] (encode s0 # encode s1 # encode s2 # encode s3 # cs) si =
     (case Decode 0 [] cs (Suc (Suc (Suc (Suc si)))) of
        (bs, err) \<Rightarrow> (quantum_bytes [ucast s0, ucast s1, ucast s2, ucast s3] 4 @ bs, err))"
  using assms by (simp add: Decode_step numeral_3_eq_3 del: Decode.simps)

lemma Decode_triple_pad:
  assumes "unat s0 < 64" "unat s1 < 64" "unat s2 < 64"
  shows "Decode 0 [] [encode s0, encode s1, encode s2, padChar] si =
     (quantum_bytes [ucast s0, ucast s1, ucast s2] 3, None)"
  using assms
  by (simp add: Decode_step Decode_pad numeral_3_eq_3 padding_def finish_def del: Decode.simps)

lemma Decode_pair_pad:
  assumes "unat s0 < 64" "unat s1 < 64"
  shows "Decode 0 [] [encode s0, encode s1, padChar, padChar] si =
     (quantum_bytes [ucast s0, ucast s1] 2, None)"
  using assms
  by (simp add: Decode_step Decode_pad numeral_3_eq_3 numeral_2_eq_2 padding_def finish_def
      padChar_not_newline del: Decode.simps)

lemma quantum_bytes_full:
  "quantum_bytes [d0, d1, d2, d3] 4 =
     (let val = push_bit 18 (ucast d0 :: uint) OR push_bit 12 (ucast d1)
                OR push_bit 6 (ucast d2) OR ucast d3
      in [ucast (drop_bit 16 val), ucast (drop_bit 8 val), ucast val])"
  by (simp add: quantum_bytes_def Let_def)

lemma quantum_bytes_short:
  "quantum_bytes [d0, d1, d2] 3 = take 2 (quantum_bytes [d0, d1, d2, 0] 4)"
  "quantum_bytes [d0, d1] 2 = take 1 (quantum_bytes [d0, d1, 0, 0] 4)"
  by (simp_all add: quantum_bytes_def Let_def numeral_3_eq_3 numeral_2_eq_2)

lemma quantum_bytes_4:
  "quantum_bytes [sextet 18 (val3 a b c), sextet 12 (val3 a b c), sextet 6 (val3 a b c),
      sextet 0 (val3 a b c)] 4 = [a, b, c]"
  unfolding quantum_bytes_full regroup Let_def val3_bytes by (rule refl)

lemma quantum_bytes_3:
  "quantum_bytes [sextet 18 (val3 a b 0), sextet 12 (val3 a b 0), sextet 6 (val3 a b 0)] 3
     = [a, b]"
  using quantum_bytes_4 [of a b 0] by (simp add: quantum_bytes_short sextet_zero)

lemma quantum_bytes_2:
  "quantum_bytes [sextet 18 (val3 a 0 0), sextet 12 (val3 a 0 0)] 2 = [a]"
  using quantum_bytes_4 [of a 0 0] by (simp add: quantum_bytes_short sextet_zero)

lemma six_less: "unat (six k v) < 64"
  by (simp add: six_def sextet_less)

lemma ucast_six: "ucast (six k v) = sextet k v"
  by (simp add: six_def sextet_def mask6)

lemma Encode_six:
  "Encode (a # b # c # src) =
     encode (six 18 (val3 a b c)) # encode (six 12 (val3 a b c)) # encode (six 6 (val3 a b c))
       # encode (six 0 (val3 a b c)) # Encode src"
  "Encode [a, b] =
     [encode (six 18 (val3 a b 0)), encode (six 12 (val3 a b 0)), encode (six 6 (val3 a b 0)),
      padChar]"
  "Encode [a] = [encode (six 18 (val3 a 0 0)), encode (six 12 (val3 a 0 0)), padChar, padChar]"
  by (simp_all add: six_def val3_def Let_def)

lemma Decode_Encode: "Decode 0 [] (Encode src) si = (src, None)"
proof (induction src arbitrary: si rule: Encode.induct)
  case (1 a b c src)
  show ?case
    unfolding Encode_six
    by (simp add: Decode_quad six_less ucast_six quantum_bytes_4 1 del: Decode.simps)
next
  case (2 a b)
  show ?case
    unfolding Encode_six
    by (simp add: Decode_triple_pad six_less ucast_six quantum_bytes_3 del: Decode.simps)
next
  case (3 a)
  show ?case
    unfolding Encode_six
    by (simp add: Decode_pair_pad six_less ucast_six quantum_bytes_2 del: Decode.simps)
next
  case 4
  show ?case by simp
qed

lemma DecodeString_EncodeToString: "DecodeString (EncodeToString v) = (v, None)"
  by (simp add: DecodeString_def EncodeToString_def Decode_Encode)

subsection \<open>The status code in the error message\<close>

lemma index_of_digit: "d < 10 \<Longrightarrow> index_of (digit d) ''0123456789'' 0 = Some d"
  using index_of_nth [of "''0123456789''" d 0] by (simp add: digit_def)

lemma number_append:
  "number acc (xs @ ys) = (case number acc xs of None \<Rightarrow> None | Some a \<Rightarrow> number a ys)"
  by (induction xs arbitrary: acc) (simp_all split: option.splits)

lemma number_digit: "d < 10 \<Longrightarrow> number acc [digit d] = Some (acc * 10 + d)"
  by (simp add: index_of_digit del: index_of.simps)

lemma number_digits: "number 0 (digits n) = Some n"
proof (induction n rule: digits.induct)
  case (1 n)
  show ?case
  proof (cases "n < 10")
    case True
    then have "digits n = [digit n]"
      by (simp add: digits.simps [of n])
    with True number_digit [of n 0] show ?thesis
      by (simp del: number.simps)
  next
    case False
    then have d: "digits n = digits (n div 10) @ [digit (n mod 10)]"
      by (simp add: digits.simps [of n])
    from False 1 have "number 0 (digits (n div 10)) = Some (n div 10)"
      by simp
    then have "number 0 (digits n) = number (n div 10) [digit (n mod 10)]"
      by (simp add: d number_append del: number.simps)
    also have "\<dots> = Some (n div 10 * 10 + n mod 10)"
      by (rule number_digit) simp
    finally show ?thesis by simp
  qed
qed

lemma digit_not_minus: "d < 10 \<Longrightarrow> digit d \<noteq> CHR ''-''"
proof -
  assume "d < 10"
  then have "d \<in> {0, 1, 2, 3, 4, 5, 6, 7, 8, 9}" by auto
  then show ?thesis by (auto simp: digit_def)
qed

lemma digits_head: "\<exists>c cs. digits n = c # cs \<and> c \<noteq> CHR ''-''"
proof (induction n rule: digits.induct)
  case (1 n)
  show ?case
  proof (cases "n < 10")
    case True
    then show ?thesis
      by (simp add: digits.simps [of n] digit_not_minus)
  next
    case False
    with 1 obtain c cs where "digits (n div 10) = c # cs" "c \<noteq> CHR ''-''"
      by blast
    with False show ?thesis
      by (simp add: digits.simps [of n])
  qed
qed

lemma Atoi_Itoa: "Atoi (Itoa i) = Some i"
proof (cases "i < 0")
  case True
  obtain c cs where "digits (nat (- i)) = c # cs"
    using digits_head by blast
  with True number_digits [of "nat (- i)"] show ?thesis
    by (simp add: Atoi_def Itoa_def)
next
  case False
  obtain c cs where d: "digits (nat i) = c # cs" "c \<noteq> CHR ''-''"
    using digits_head by blast
  with False number_digits [of "nat i"] show ?thesis
    by (simp add: Atoi_def Itoa_def)
qed

lemma strip_prefix_append: "strip_prefix p (p @ s) = Some s"
  by (induction p) simp_all

lemma status_of_Errorf: "status_of (Errorf unknown_status s) = Some s"
proof -
  have "Errorf unknown_status s
      = ErrorString ((unknown_status @ ''%!(EXTRA int='') @ (Itoa s @ '')''))"
    by (simp add: Errorf_def)
  then show ?thesis
    by (simp add: status_of_def strip_prefix_append Atoi_Itoa del: append_assoc)
qed

lemma Errorf_not_ErrNotExist: "Errorf f s \<noteq> ErrNotExist"
  by (simp add: Errorf_def)

lemma Decode_error: "snd (Decode j dbuf s si) = Some e \<Longrightarrow> \<exists>n. e = CorruptInputError n"
proof (induction j dbuf s si rule: Decode.induct)
  case (1 j dbuf si)
  then show ?case by (auto split: if_splits)
next
  case (2 j dbuf c cs si)
  then show ?case
    by (auto simp: Let_def padding_def finish_def split: if_splits prod.splits list.splits)
qed

subsection \<open>The polling loop of \<^verbatim>\<open>Lock\<close>\<close>

lemma posted_simps [simp]:
  "respond (posted w req n) = respond w"
  "sent (posted w req n) = sent w @ replicate n req"
  "posted w req 0 = w"
  "posted (posted w req m) req n = posted w req (m + n)"
  by (simp_all add: posted_def replicate_add)

lemma new_post:
  "url_Parse L url = None \<Longrightarrow>
     NewRequestWithContext L ctx ''POST'' url body
       = Inr \<lparr>Ctx = ctx, Method = ''POST'', URL = url, Header = [], Content = body\<rparr>"
  "Header_Add \<lparr>Ctx = ctx, Method = ''POST'', URL = url, Header = [], Content = body\<rparr>
      ''Content-Type'' ''application/json'' = post_request ctx url body"
  "url_Parse L url = Some m \<Longrightarrow>
     NewRequestWithContext L ctx ''POST'' url body = Inl (RequestError m)"
  by (simp_all add: NewRequestWithContext_def Header_Add_def post_request_def)

lemma Do_posted:
  "Do w req = (case respond w (length (sent w)) req of
                 Inl m \<Rightarrow> (Inl (DoError m), posted w req 1)
               | Inr resp \<Rightarrow> (Inr resp, posted w req 1))"
  by (simp add: Do_def posted_def split: sum.splits)

lemma loop_body:
  assumes "url_Parse L (Endpoint r @ ''lock'') = None"
  shows "(case NewRequestWithContext L ctx ''POST'' (Endpoint r @ ''lock'') body of
        Inl err \<Rightarrow> Some (Some err, w)
      | Inr req \<Rightarrow>
          (case Do w (Header_Add req ''Content-Type'' ''application/json'') of
             (Inl err, w') \<Rightarrow> Some (Some err, w')
           | (Inr resp, w') \<Rightarrow>
               if StatusCode resp = 201 then Some (None, w')
               else if StatusCode resp \<noteq> 412
                 then Some (Some (Errorf unknown_status (StatusCode resp)), w')
               else f w'))
     = (if is_412 (respond w (length (sent w)) (post_request ctx (Endpoint r @ ''lock'') body))
        then f (posted w (post_request ctx (Endpoint r @ ''lock'') body) 1)
        else Some (lock_result (respond w (length (sent w))
                     (post_request ctx (Endpoint r @ ''lock'') body)),
                   posted w (post_request ctx (Endpoint r @ ''lock'') body) 1))"
  using assms
  by (simp add: new_post Do_posted is_412_def lock_result_def split: sum.splits)

lemma Lock_loop_step:
  assumes "url_Parse L (Endpoint r @ ''lock'') = None"
  shows "Lock_loop L r ctx body w =
     (if is_412 (respond w (length (sent w)) (post_request ctx (Endpoint r @ ''lock'') body))
      then Lock_loop L r ctx body (posted w (post_request ctx (Endpoint r @ ''lock'') body) 1)
      else Some (lock_result (respond w (length (sent w))
                   (post_request ctx (Endpoint r @ ''lock'') body)),
                 posted w (post_request ctx (Endpoint r @ ''lock'') body) 1))"
  by (subst Lock_loop.simps) (rule loop_body [OF assms])

lemma refused_Suc:
  "refused w req (Suc n) \<longleftrightarrow>
     is_412 (respond w (length (sent w)) req) \<and> refused (posted w req 1) req n"
proof -
  have "(\<forall>i<Suc n. is_412 (respond w (length (sent w) + i) req)) \<longleftrightarrow>
      is_412 (respond w (length (sent w) + 0) req)
      \<and> (\<forall>i<n. is_412 (respond w (length (sent w) + Suc i) req))"
    by (rule All_less_Suc2)
  then show ?thesis by (simp add: refused_def)
qed

lemma Lock_loop_run:
  assumes "url_Parse L (Endpoint r @ ''lock'') = None"
  shows "refused w (post_request ctx (Endpoint r @ ''lock'') body) n \<Longrightarrow>
     Lock_loop L r ctx body w
       = Lock_loop L r ctx body (posted w (post_request ctx (Endpoint r @ ''lock'') body) n)"
proof (induction n arbitrary: w)
  case 0
  show ?case by simp
next
  case (Suc n)
  let ?req = "post_request ctx (Endpoint r @ ''lock'') body"
  from Suc.prems have a: "is_412 (respond w (length (sent w)) ?req)"
    and b: "refused (posted w ?req 1) ?req n"
    by (simp_all add: refused_Suc)
  have "Lock_loop L r ctx body w = Lock_loop L r ctx body (posted w ?req 1)"
    using a by (simp add: Lock_loop_step [OF assms, of ctx body w] Let_def)
  also have "\<dots> = Lock_loop L r ctx body (posted (posted w ?req 1) ?req n)"
    by (rule Suc.IH [OF b])
  finally show ?case by simp
qed

lemma Lock_loop_ends:
  assumes "url_Parse L (Endpoint r @ ''lock'') = None"
    and "refused w (post_request ctx (Endpoint r @ ''lock'') body) n"
    and "\<not> is_412 (respond w (length (sent w) + n) (post_request ctx (Endpoint r @ ''lock'') body))"
  shows "Lock_loop L r ctx body w =
     Some (lock_result (respond w (length (sent w) + n)
             (post_request ctx (Endpoint r @ ''lock'') body)),
           posted w (post_request ctx (Endpoint r @ ''lock'') body) (Suc n))"
  using assms(3)
  by (simp add: Lock_loop_run [OF assms(1,2)]
      Lock_loop_step [OF assms(1), of ctx body "posted w (post_request ctx (Endpoint r @ ''lock'') body) n"]
      Let_def)

lemma loop_body_Some:
  assumes u: "url_Parse L (Endpoint r @ ''lock'') = None"
    and b: "(case NewRequestWithContext L ctx ''POST'' (Endpoint r @ ''lock'') body of
        Inl err \<Rightarrow> Some (Some err, w)
      | Inr req \<Rightarrow>
          (case Do w (Header_Add req ''Content-Type'' ''application/json'') of
             (Inl err, w') \<Rightarrow> Some (Some err, w')
           | (Inr resp, w') \<Rightarrow>
               if StatusCode resp = 201 then Some (None, w')
               else if StatusCode resp \<noteq> 412
                 then Some (Some (Errorf unknown_status (StatusCode resp)), w')
               else f w')) = Some y"
  shows "(if is_412 (respond w (length (sent w)) (post_request ctx (Endpoint r @ ''lock'') body))
        then f (posted w (post_request ctx (Endpoint r @ ''lock'') body) 1)
        else Some (lock_result (respond w (length (sent w))
                     (post_request ctx (Endpoint r @ ''lock'') body)),
                   posted w (post_request ctx (Endpoint r @ ''lock'') body) 1)) = Some y"
  using b by (simp only: loop_body [OF u])

lemma ended_now:
  assumes "\<not> is_412 (respond w (length (sent w)) (post_request ctx (Endpoint r @ ''lock'') body))"
  shows "ended L r ctx body w
     (lock_result (respond w (length (sent w)) (post_request ctx (Endpoint r @ ''lock'') body)),
      posted w (post_request ctx (Endpoint r @ ''lock'') body) 1)"
  unfolding ended_def using assms
  by (intro exI [of _ 0]) (simp add: refused_def)

lemma ended_later:
  assumes "is_412 (respond w (length (sent w)) (post_request ctx (Endpoint r @ ''lock'') body))"
    and "ended L r ctx body (posted w (post_request ctx (Endpoint r @ ''lock'') body) 1) y"
  shows "ended L r ctx body w y"
proof -
  let ?req = "post_request ctx (Endpoint r @ ''lock'') body"
  from assms(2) obtain n where n1: "refused (posted w ?req 1) ?req n"
    and n2: "\<not> is_412 (respond (posted w ?req 1) (length (sent (posted w ?req 1)) + n) ?req)"
    and n3: "y = (lock_result (respond (posted w ?req 1) (length (sent (posted w ?req 1)) + n) ?req),
                posted (posted w ?req 1) ?req (Suc n))"
    unfolding ended_def by (elim exE conjE)
  from assms(1) n1 have r: "refused w ?req (Suc n)"
    by (simp add: refused_Suc)
  from n2 have e: "\<not> is_412 (respond w (length (sent w) + Suc n) ?req)"
    by simp
  from n3 have "y = (lock_result (respond w (length (sent w) + Suc n) ?req),
      posted w ?req (Suc (Suc n)))"
    by simp
  with r e show ?thesis
    unfolding ended_def by (intro exI [of _ "Suc n"] conjI)
qed

lemma Lock_loop_Some:
  assumes "Lock_loop L r ctx body w = Some y"
  shows "url_Parse L (Endpoint r @ ''lock'') = None \<longrightarrow> ended L r ctx body w y"
proof (rule Lock_loop.raw_induct
    [where P = "\<lambda>L r ctx body w y. url_Parse L (Endpoint r @ ''lock'') = None \<longrightarrow> ended L r ctx body w y",
     OF _ assms])
  fix loop L r ctx body w y
  assume ih: "\<And>L r ctx body w y. loop L r ctx body w = Some y \<Longrightarrow>
      url_Parse L (Endpoint r @ ''lock'') = None \<longrightarrow> ended L r ctx body w y"
    and b: "(case NewRequestWithContext L ctx ''POST'' (Endpoint r @ ''lock'') body of
        Inl err \<Rightarrow> Some (Some err, w)
      | Inr req \<Rightarrow>
          (case Do w (Header_Add req ''Content-Type'' ''application/json'') of
             (Inl err, w') \<Rightarrow> Some (Some err, w')
           | (Inr resp, w') \<Rightarrow>
               if StatusCode resp = 201 then Some (None, w')
               else if StatusCode resp \<noteq> 412
                 then Some (Some (Errorf unknown_status (StatusCode resp)), w')
               else loop L r ctx body w')) = Some y"
  let ?req = "post_request ctx (Endpoint r @ ''lock'') body"
  show "url_Parse L (Endpoint r @ ''lock'') = None \<longrightarrow> ended L r ctx body w y"
  proof
    assume u: "url_Parse L (Endpoint r @ ''lock'') = None"
    have c: "(if is_412 (respond w (length (sent w)) ?req)
        then loop L r ctx body (posted w ?req 1)
        else Some (lock_result (respond w (length (sent w)) ?req), posted w ?req 1)) = Some y"
      by (rule loop_body_Some [OF u b])
    show "ended L r ctx body w y"
    proof (cases "is_412 (respond w (length (sent w)) ?req)")
      case False
      with c have "y = (lock_result (respond w (length (sent w)) ?req), posted w ?req 1)"
        by simp
      with ended_now [OF False] show ?thesis by simp
    next
      case True
      with c have "loop L r ctx body (posted w ?req 1) = Some y"
        by simp
      from ih [OF this] u have "ended L r ctx body (posted w ?req 1) y"
        by (rule mp)
      with True show ?thesis by (rule ended_later)
    qed
  qed
qed

lemma Lock_loop_never:
  assumes "url_Parse L (Endpoint r @ ''lock'') = None"
    and "\<forall>n. is_412 (respond w (length (sent w) + n) (post_request ctx (Endpoint r @ ''lock'') body))"
  shows "Lock_loop L r ctx body w = None"
proof (cases "Lock_loop L r ctx body w")
  case None
  then show ?thesis .
next
  case (Some y)
  from Lock_loop_Some [OF Some] assms(1) have "ended L r ctx body w y"
    by (rule mp)
  with assms(2) show ?thesis
    unfolding ended_def by blast
qed

subsection \<open>The single-request operations\<close>

text \<open>
  Once the request is built, every operation but \<^verbatim>\<open>Lock\<close> makes one call, and its result
  is a function of the answer to that call.
\<close>

lemma Unlock_answer:
  assumes "json_Marshal L (UnlockRequest key (Token r)) = Inr body"
    and "url_Parse L (Endpoint r @ ''unlock'') = None"
  shows "Unlock L r ctx key w =
     (case respond w (length (sent w)) (post_request ctx (Endpoint r @ ''unlock'') body) of
        Inl e \<Rightarrow> Some (DoError e)
      | Inr resp \<Rightarrow>
          if StatusCode resp \<noteq> 204 then Some (Errorf unknown_status (StatusCode resp)) else None,
      posted w (post_request ctx (Endpoint r @ ''unlock'') body) 1)"
  using assms by (simp add: Unlock_def new_post Do_posted split: sum.splits)

lemma Store_answer:
  assumes "json_Marshal L (StoreRequest key (EncodeToString v) (Token r)) = Inr body"
    and "url_Parse L (Endpoint r @ ''store'') = None"
  shows "Store L r ctx key v w =
     (case respond w (length (sent w)) (post_request ctx (Endpoint r @ ''store'') body) of
        Inl e \<Rightarrow> Some (DoError e)
      | Inr resp \<Rightarrow>
          if StatusCode resp \<noteq> 201 then Some (Errorf unknown_status (StatusCode resp)) else None,
      posted w (post_request ctx (Endpoint r @ ''store'') body) 1)"
  using assms by (simp add: Store_def new_post Do_posted split: sum.splits)

lemma Delete_answer:
  assumes "json_Marshal L (DeleteRequest key (Token r)) = Inr body"
    and "url_Parse L (Endpoint r @ ''delete'') = None"
  shows "Delete L r ctx key w =
     (case respond w (length (sent w)) (post_request ctx (Endpoint r @ ''delete'') body) of
        Inl e \<Rightarrow> Some (DoError e)
      | Inr resp \<Rightarrow>
          if StatusCode resp = 404 then Some ErrNotExist
          else if StatusCode resp \<noteq> 204 then Some (Errorf unknown_status (StatusCode resp))
          else None,
      posted w (post_request ctx (Endpoint r @ ''delete'') body) 1)"
  using assms by (simp add: Delete_def new_post Do_posted split: sum.splits)

lemma Load_answer:
  assumes "json_Marshal L (LoadRequest key (Token r)) = Inr body"
    and "url_Parse L (Endpoint r @ ''load'') = None"
  shows "Load L r ctx key w =
     (case respond w (length (sent w)) (post_request ctx (Endpoint r @ ''load'') body) of
        Inl e \<Rightarrow> Inl (DoError e)
      | Inr resp \<Rightarrow>
          if StatusCode resp = 404 then Inl ErrNotExist
          else if StatusCode resp \<noteq> 200 then Inl (Errorf unknown_status (StatusCode resp))
          else
            (case Decode_LoadResponse L (Body resp) of
               Inl e \<Rightarrow> Inl (DecodeError e)
             | Inr loadResp \<Rightarrow>
                 (case DecodeString (Value loadResp) of
                    (valueDec, Some err) \<Rightarrow> Inl err
                  | (valueDec, None) \<Rightarrow> Inr valueDec)),
      posted w (post_request ctx (Endpoint r @ ''load'') body) 1)"
  using assms
  by (simp add: Load_def new_post Do_posted split: sum.splits prod.splits option.splits)

lemma Exists_answer:
  assumes "json_Marshal L (ExistsRequest key (Token r)) = Inr body"
    and "url_Parse L (Endpoint r @ ''exists'') = None"
  shows "Exists_op L r ctx key w =
     (case respond w (length (sent w)) (post_request ctx (Endpoint r @ ''exists'') body) of
        Inl e \<Rightarrow> False
      | Inr resp \<Rightarrow>
          if StatusCode resp \<noteq> 200 then False
          else
            (case Decode_ExistsResponse L (Body resp) of
               Inl e \<Rightarrow> False
             | Inr existsResp \<Rightarrow> Exists existsResp),
      posted w (post_request ctx (Endpoint r @ ''exists'') body) 1)"
  using assms by (simp add: Exists_op_def new_post Do_posted split: sum.splits)

lemma List_answer:
  assumes "json_Marshal L (ListRequest prefix recursive (Token r)) = Inr body"
    and "url_Parse L (Endpoint r @ ''list'') = None"
  shows "List_op L r ctx prefix recursive w =
     (case respond w (length (sent w)) (post_request ctx (Endpoint r @ ''list'') body) of
        Inl e \<Rightarrow> Inl (DoError e)
      | Inr resp \<Rightarrow>
          if StatusCode resp = 404 then Inl ErrNotExist
          else if StatusCode resp \<noteq> 200 then Inl (Errorf unknown_status (StatusCode resp))
          else
            (case Decode_ListResponse L (Body resp) of
               Inl e \<Rightarrow> Inl (DecodeError e)
             | Inr listResp \<Rightarrow> Inr (Keys listResp)),
      posted w (post_request ctx (Endpoint r @ ''list'') body) 1)"
  using assms by (simp add: List_op_def new_post Do_posted split: sum.splits)

lemma Stat_answer:
  assumes "json_Marshal L (StatRequest key (Token r)) = Inr body"
    and "url_Parse L (Endpoint r @ ''stat'') = None"
  shows "Stat L r ctx key w =
     (case respond w (length (sent w)) (post_request ctx (Endpoint r @ ''stat'') body) of
        Inl e \<Rightarrow> Inl (DoError e)
      | Inr resp \<Rightarrow>
          if StatusCode resp = 404 then Inl ErrNotExist
          else if StatusCode resp \<noteq> 200 then Inl (Errorf unknown_status (StatusCode resp))
          else
            (case Decode_StatResponse L (Body resp) of
               Inl e \<Rightarrow> Inl (DecodeError e)
             | Inr (StatResponse k modified sz terminal) \<Rightarrow>
                 (case time_Parse L RFC3339 modified of
                    Inl e \<Rightarrow> Inl (ParseError e)
                  | Inr parsedTime \<Rightarrow>
                      Inr \<lparr>Key = k, Modified = parsedTime, Size = sz, IsTerminal = terminal\<rparr>)),
      posted w (post_request ctx (Endpoint r @ ''stat'') body) 1)"
  using assms
  by (simp add: Stat_def new_post Do_posted split: sum.splits StatResponse.splits)

text \<open>When the request cannot be built, nothing is sent.\<close>

lemma no_request:
  "json_Marshal L (UnlockRequest key (Token r)) = Inl e \<Longrightarrow>
     Unlock L r ctx key w = (Some (MarshalError e), w)"
  "json_Marshal L (UnlockRequest key (Token r)) = Inr body \<Longrightarrow>
     url_Parse L (Endpoint r @ ''unlock'') = Some e \<Longrightarrow>
     Unlock L r ctx key w = (Some (RequestError e), w)"
  "json_Marshal L (ExistsRequest key (Token r)) = Inl e \<Longrightarrow>
     Exists_op L r ctx key w = (False, w)"
  "json_Marshal L (ExistsRequest key (Token r)) = Inr body \<Longrightarrow>
     url_Parse L (Endpoint r @ ''exists'') = Some e \<Longrightarrow>
     Exists_op L r ctx key w = (False, w)"
  by (simp_all add: Unlock_def Exists_op_def new_post)

lemma lock_result_None:
  "lock_result out = None \<longleftrightarrow> (\<exists>resp. out = Inr resp \<and> StatusCode resp = 201)"
  by (cases out) (simp_all add: lock_result_def)

lemma Lock_marshalled:
  "json_Marshal L (LockRequest key (Token r)) = Inr body \<Longrightarrow>
     Lock L r ctx key w = Lock_loop L r ctx body w"
  by (simp add: Lock_def)

lemma Exists_True: "Exists x \<longleftrightarrow> x = ExistsResponse True"
  by (cases x) simp

lemma DecodeString_not_ErrNotExist: "DecodeString s \<noteq> (v, Some ErrNotExist)"
  using Decode_error [of 0 "[]" s 0 ErrNotExist]
  by (auto simp: DecodeString_def)

lemma Load_ErrNotExist:
  "fst (Load L r ctx key w) = Inl ErrNotExist \<longleftrightarrow>
     (\<exists>body resp. json_Marshal L (LoadRequest key (Token r)) = Inr body
        \<and> url_Parse L (Endpoint r @ ''load'') = None
        \<and> respond w (length (sent w)) (post_request ctx (Endpoint r @ ''load'') body) = Inr resp
        \<and> StatusCode resp = 404)"
proof (cases "json_Marshal L (LoadRequest key (Token r))")
  case (Inl m)
  then show ?thesis
    by (simp add: Load_def)
next
  case (Inr body)
  show ?thesis
  proof (cases "url_Parse L (Endpoint r @ ''load'')")
    case (Some m)
    with Inr show ?thesis
      by (simp add: Load_def new_post)
  next
    case None
    show ?thesis
      using DecodeString_not_ErrNotExist
      by (auto simp add: Inr None Load_answer [OF Inr None] Errorf_def
          split: sum.splits if_splits prod.splits option.splits)
  qed
qed

lemma Delete_ErrNotExist:
  "fst (Delete L r ctx key w) = Some ErrNotExist \<longleftrightarrow>
     (\<exists>body resp. json_Marshal L (DeleteRequest key (Token r)) = Inr body
        \<and> url_Parse L (Endpoint r @ ''delete'') = None
        \<and> respond w (length (sent w)) (post_request ctx (Endpoint r @ ''delete'') body) = Inr resp
        \<and> StatusCode resp = 404)"
proof (cases "json_Marshal L (DeleteRequest key (Token r))")
  case (Inl m)
  then show ?thesis
    by (simp add: Delete_def)
next
  case (Inr body)
  show ?thesis
  proof (cases "url_Parse L (Endpoint r @ ''delete'')")
    case (Some m)
    with Inr show ?thesis
      by (simp add: Delete_def new_post)
  next
    case None
    show ?thesis
      by (auto simp add: Inr None Delete_answer [OF Inr None] Errorf_def
          split: sum.splits if_splits)
  qed
qed

lemma List_ErrNotExist:
  "fst (List_op L r ctx prefix recursive w) = Inl ErrNotExist \<longleftrightarrow>
     (\<exists>body resp. json_Marshal L (ListRequest prefix recursive (Token r)) = Inr body
        \<and> url_Parse L (Endpoint r @ ''list'') = None
        \<and> respond w (length (sent w)) (post_request ctx (Endpoint r @ ''list'') body) = Inr resp
        \<and> StatusCode resp = 404)"
proof (cases "json_Marshal L (ListRequest prefix recursive (Token r))")
  case (Inl m)
  then show ?thesis
    by (simp add: List_op_def)
next
  case (Inr body)
  show ?thesis
  proof (cases "url_Parse L (Endpoint r @ ''list'')")
    case (Some m)
    with Inr show ?thesis
      by (simp add: List_op_def new_post)
  next
    case None
    show ?thesis
      by (auto simp add: Inr None List_answer [OF Inr None] Errorf_def
          split: sum.splits if_splits)
  qed
qed

lemma Stat_ErrNotExist:
  "fst (Stat L r ctx key w) = Inl ErrNotExist \<longleftrightarrow>
     (\<exists>body resp. json_Marshal L (StatRequest key (Token r)) = Inr body
        \<and> url_Parse L (Endpoint r @ ''stat'') = None
        \<and> respond w (length (sent w)) (post_request ctx (Endpoint r @ ''stat'') body) = Inr resp
        \<and> StatusCode resp = 404)"
proof (cases "json_Marshal L (StatRequest key (Token r))")
  case (Inl m)
  then show ?thesis
    by (simp add: Stat_def)
next
  case (Inr body)
  show ?thesis
  proof (cases "url_Parse L (Endpoint r @ ''stat'')")
    case (Some m)
    with Inr show ?thesis
      by (simp add: Stat_def new_post)
  next
    case None
    show ?thesis
      by (auto simp add: Inr None Stat_answer [OF Inr None] Errorf_def
          split: sum.splits if_splits StatResponse.splits)
  qed
qed




section \<open>The claims\<close>

subsection \<open>Configuration\<close>

text \<open>
  C9. \<^verbatim>\<open>Validate\<close> returns an error exactly when the endpoint or the token is empty;
  the message names the endpoint when the endpoint is empty and the token otherwise;
  with both fields set it succeeds.
\<close>

theorem Validate_iff:
  "(Validate r \<noteq> None \<longleftrightarrow> Endpoint r = '''' \<or> Token r = '''')
   \<and> (Endpoint r = '''' \<longrightarrow> Validate r = Some (ErrorString ''endpoint must be specified''))
   \<and> (Endpoint r \<noteq> '''' \<and> Token r = '''' \<longrightarrow>
        Validate r = Some (ErrorString ''token must be specified''))
   \<and> (Endpoint r \<noteq> '''' \<and> Token r \<noteq> '''' \<longrightarrow> Validate r = None)"
  by (simp add: Validate_def)

theorem Validate_iff_witness:
  "Validate \<lparr>Endpoint = ''http://kv/'', Token = ''''\<rparr>
     = Some (ErrorString ''token must be specified'')
   \<and> Validate \<lparr>Endpoint = '''', Token = ''t''\<rparr>
     = Some (ErrorString ''endpoint must be specified'')
   \<and> Validate r0 = None"
  using Validate_iff [of "\<lparr>Endpoint = ''http://kv/'', Token = ''''\<rparr>"]
    Validate_iff [of "\<lparr>Endpoint = '''', Token = ''t''\<rparr>"]
    Validate_iff [of r0]
  by (simp add: r0_def)

text \<open>
  C10. \<^verbatim>\<open>UnmarshalCaddyfile\<close> returns no error on any dispenser. A key without an
  argument leaves the configuration as it is, and so does a key that is neither
  \<^verbatim>\<open>endpoint\<close> nor \<^verbatim>\<open>token\<close>, whatever its argument; hence a dispenser in which no
  recognized key has an argument leaves the configuration unchanged.
\<close>

theorem UnmarshalCaddyfile_no_error:
  "fst (UnmarshalCaddyfile nl r d) = None
   \<and> (\<forall>d1 v d2. Next d = (True, d1) \<and> Args nl d1 '''' = (False, v, d2) \<longrightarrow>
        UnmarshalCaddyfile nl r d = UnmarshalCaddyfile nl r d2)
   \<and> (\<forall>d1 v d2. Next d = (True, d1) \<and> \<not> recognized (Val d1) \<and> Args nl d1 '''' = (True, v, d2) \<longrightarrow>
        UnmarshalCaddyfile nl r d = UnmarshalCaddyfile nl r d2)
   \<and> ((\<forall>i < length (tokens d). recognized (Text (tokens d ! i)) \<longrightarrow> \<not> has_arg nl (tokens d) i)
        \<longrightarrow> fst (snd (UnmarshalCaddyfile nl r d)) = r)"
proof (intro conjI allI impI)
  show "fst (UnmarshalCaddyfile nl r d) = None"
    by (rule UnmarshalCaddyfile_nil)
next
  fix d1 v d2
  assume "Next d = (True, d1) \<and> Args nl d1 '''' = (False, v, d2)"
  then show "UnmarshalCaddyfile nl r d = UnmarshalCaddyfile nl r d2"
    by (simp add: UnmarshalCaddyfile_skip)
next
  fix d1 v d2
  assume "Next d = (True, d1) \<and> \<not> recognized (Val d1) \<and> Args nl d1 '''' = (True, v, d2)"
  then show "UnmarshalCaddyfile nl r d = UnmarshalCaddyfile nl r d2"
    using UnmarshalCaddyfile_assign [of d d1 nl v d2 r] by (simp add: assign_other)
next
  assume "\<forall>i < length (tokens d). recognized (Text (tokens d ! i)) \<longrightarrow> \<not> has_arg nl (tokens d) i"
  then show "fst (snd (UnmarshalCaddyfile nl r d)) = r"
    by (rule UnmarshalCaddyfile_unchanged)
qed

theorem UnmarshalCaddyfile_no_error_witness:
  "UnmarshalCaddyfile by_line r0 caddyfile0 = (None, r0, caddyfile0\<lparr>cursor := 3\<rparr>)
   \<and> UnmarshalCaddyfile by_line r0 caddyfile0 = UnmarshalCaddyfile by_line r0 (caddyfile0\<lparr>cursor := 0\<rparr>)
   \<and> UnmarshalCaddyfile by_line r0 (caddyfile0\<lparr>cursor := 0\<rparr>)
       = UnmarshalCaddyfile by_line r0 (caddyfile0\<lparr>cursor := 2\<rparr>)"
proof -
  have n0: "Next caddyfile0 = (True, caddyfile0\<lparr>cursor := 0\<rparr>)"
    by (simp add: Next_def caddyfile0_def)
  have a0: "Args by_line (caddyfile0\<lparr>cursor := 0\<rparr>) '''' = (False, '''', caddyfile0\<lparr>cursor := 0\<rparr>)"
    by (simp add: Args_def NextArg_def nextOnSameLine_def caddyfile0_def by_line_def tok_def)
  have n1: "Next (caddyfile0\<lparr>cursor := 0\<rparr>) = (True, caddyfile0\<lparr>cursor := 1\<rparr>)"
    by (simp add: Next_def caddyfile0_def)
  have v1: "\<not> recognized (Val (caddyfile0\<lparr>cursor := 1\<rparr>))"
    by (simp add: Val_def caddyfile0_def tok_def recognized_def)
  have a1: "Args by_line (caddyfile0\<lparr>cursor := 1\<rparr>) '''' = (True, ''/srv'', caddyfile0\<lparr>cursor := 2\<rparr>)"
    by (simp add: Args_def NextArg_def nextOnSameLine_def Val_def caddyfile0_def by_line_def tok_def)
  have h: "\<forall>i < length (tokens caddyfile0). recognized (Text (tokens caddyfile0 ! i)) \<longrightarrow> \<not> has_arg by_line (tokens caddyfile0) i"
    by (simp add: caddyfile0_def tok_def recognized_def has_arg_def by_line_def less_Suc_eq
        all_conj_distrib imp_conjL nth_Cons')
  have e: "snd (snd (UnmarshalCaddyfile by_line r0 caddyfile0)) = caddyfile0\<lparr>cursor := 3\<rparr>"
    by (simp add: UnmarshalCaddyfile.simps Next_def Args_def NextArg_def nextOnSameLine_def
        Val_def caddyfile0_def by_line_def tok_def Let_def)
  from UnmarshalCaddyfile_no_error [of by_line r0 caddyfile0] h n0 a0 e
    UnmarshalCaddyfile_no_error [of by_line r0 "caddyfile0\<lparr>cursor := 0\<rparr>"] n1 v1 a1
  show ?thesis
    by (metis prod.collapse)
qed

subsection \<open>Locking\<close>

text \<open>
  C1. \<^verbatim>\<open>Lock\<close> returns success if and only if an answer with status 201 is seen, after
  answers that all had status 412; each 412 is followed by another POST of the same
  request, without bound (a remote that answers 412 for ever gives the run that never
  returns); an answer with any status other than 201 and 412 ends the call at once with the
  error that reports the status, and a failed call ends it with the error of the transport.
  A call that returns after \<open>n\<close> answers 412 has sent \<open>n + 1\<close> requests.
\<close>

theorem Lock_until_201:
  assumes "json_Marshal L (LockRequest key (Token r)) = Inr body"
    and "url_Parse L (Endpoint r @ ''lock'') = None"
    and "req = post_request ctx (Endpoint r @ ''lock'') body"
  shows "((\<exists>w'. Lock L r ctx key w = Some (None, w')) \<longleftrightarrow>
            (\<exists>n resp. refused w req n \<and> respond w (length (sent w) + n) req = Inr resp
               \<and> StatusCode resp = 201))
    \<and> (\<forall>n resp. refused w req n \<and> respond w (length (sent w) + n) req = Inr resp
          \<and> StatusCode resp = 201 \<longrightarrow>
          Lock L r ctx key w = Some (None, posted w req (Suc n)))
    \<and> (\<forall>n resp. refused w req n \<and> respond w (length (sent w) + n) req = Inr resp
          \<and> StatusCode resp \<noteq> 201 \<and> StatusCode resp \<noteq> 412 \<longrightarrow>
          Lock L r ctx key w
            = Some (Some (Errorf unknown_status (StatusCode resp)), posted w req (Suc n)))
    \<and> (\<forall>n m. refused w req n \<and> respond w (length (sent w) + n) req = Inl m \<longrightarrow>
          Lock L r ctx key w = Some (Some (DoError m), posted w req (Suc n)))
    \<and> ((\<forall>n. is_412 (respond w (length (sent w) + n) req)) \<longrightarrow> Lock L r ctx key w = None)
    \<and> (\<forall>n y. refused w req n \<and> Lock L r ctx key w = Some y \<longrightarrow>
          (\<exists>k\<ge>n. snd y = posted w req (Suc k)))"
proof -
  note loop = Lock_marshalled [OF assms(1)]
  note ends = Lock_loop_ends [OF assms(2), of w ctx body, folded assms(3)]
  have created: "Lock L r ctx key w = Some (None, posted w req (Suc n))"
    if "refused w req n" "respond w (length (sent w) + n) req = Inr resp" "StatusCode resp = 201"
    for n resp
    using ends [OF that(1)] that(2,3) by (simp add: loop is_412_def lock_result_def)
  have other: "Lock L r ctx key w
      = Some (Some (Errorf unknown_status (StatusCode resp)), posted w req (Suc n))"
    if "refused w req n" "respond w (length (sent w) + n) req = Inr resp"
      "StatusCode resp \<noteq> 201" "StatusCode resp \<noteq> 412"
    for n resp
    using ends [OF that(1)] that(2,3,4) by (simp add: loop is_412_def lock_result_def)
  have failed: "Lock L r ctx key w = Some (Some (DoError m), posted w req (Suc n))"
    if "refused w req n" "respond w (length (sent w) + n) req = Inl m"
    for n m
    using ends [OF that(1)] that(2) by (simp add: loop is_412_def lock_result_def)
  have never: "Lock L r ctx key w = None"
    if "\<forall>n. is_412 (respond w (length (sent w) + n) req)"
    using Lock_loop_never [OF assms(2), of w ctx body] that
    by (simp add: loop assms(3))
  have returned: "\<exists>n. refused w req n \<and> \<not> is_412 (respond w (length (sent w) + n) req)
      \<and> y = (lock_result (respond w (length (sent w) + n) req), posted w req (Suc n))"
    if "Lock L r ctx key w = Some y" for y
  proof -
    from that have "Lock_loop L r ctx body w = Some y"
      by (simp add: loop)
    from Lock_loop_Some [OF this] assms(2) have "ended L r ctx body w y"
      by (rule mp)
    then show ?thesis
      by (simp add: ended_def assms(3))
  qed
  have seen: "\<exists>n resp. refused w req n \<and> respond w (length (sent w) + n) req = Inr resp
      \<and> StatusCode resp = 201"
    if "Lock L r ctx key w = Some (None, w')" for w'
  proof -
    from returned [OF that] obtain n where n: "refused w req n"
      and "lock_result (respond w (length (sent w) + n) req) = None"
      by auto
    then obtain resp where "respond w (length (sent w) + n) req = Inr resp"
      and "StatusCode resp = 201"
      by (auto simp: lock_result_None)
    with n show ?thesis by blast
  qed
  have count: "\<exists>k\<ge>n. snd y = posted w req (Suc k)"
    if "refused w req n" "Lock L r ctx key w = Some y" for n y
  proof -
    from returned [OF that(2)] obtain k where k: "\<not> is_412 (respond w (length (sent w) + k) req)"
      and y: "y = (lock_result (respond w (length (sent w) + k) req), posted w req (Suc k))"
      by auto
    from that(1) k have "\<not> k < n"
      by (auto simp: refused_def)
    with y show ?thesis
      by (intro exI [of _ k]) simp
  qed
  have iff: "(\<exists>w'. Lock L r ctx key w = Some (None, w')) \<longleftrightarrow>
      (\<exists>n resp. refused w req n \<and> respond w (length (sent w) + n) req = Inr resp
         \<and> StatusCode resp = 201)"
    using seen created by blast
  from iff created other failed never count show ?thesis
    by blast
qed

theorem Lock_until_201_witness:
  "Lock lib0 r0 (Context 0) ''k'' (after 2 201 [])
      = Some (None, posted (after 2 201 []) lock0 3)
   \<and> Lock lib0 r0 (Context 0) ''k'' (after 1 500 [])
      = Some (Some (ErrorString ''Unknown status code received: {}%!(EXTRA int=500)''),
              posted (after 1 500 []) lock0 2)
   \<and> Lock lib0 r0 (Context 0) ''k'' (always 412 []) = None
   \<and> Lock lib0 r0 (Context 0) ''k'' down
      = Some (Some (DoError ''connection refused''), posted down lock0 1)"
proof -
  have m: "json_Marshal lib0 (LockRequest ''k'' (Token r0)) = Inr ''{}''"
    and u: "url_Parse lib0 (Endpoint r0 @ ''lock'') = None"
    and q: "lock0 = post_request (Context 0) (Endpoint r0 @ ''lock'') ''{}''"
    by (simp_all add: lib0_def r0_def lock0_def)
  note t = Lock_until_201 [OF m u q]
  note created = t [THEN conjunct2, THEN conjunct1, rule_format]
  note other = t [THEN conjunct2, THEN conjunct2, THEN conjunct1, rule_format]
  note failed = t [THEN conjunct2, THEN conjunct2, THEN conjunct2, THEN conjunct1, rule_format]
  note never = t [THEN conjunct2, THEN conjunct2, THEN conjunct2, THEN conjunct2,
      THEN conjunct1, rule_format]
  have e: "Errorf unknown_status 500
      = ErrorString ''Unknown status code received: {}%!(EXTRA int=500)''"
    by (simp add: Errorf_def unknown_status_def Itoa_def digits.simps digit_def)
  have a: "Lock lib0 r0 (Context 0) ''k'' (after 2 201 [])
      = Some (None, posted (after 2 201 []) lock0 (Suc 2))"
    by (rule created [where n = 2 and resp = "\<lparr>StatusCode = 201, Body = []\<rparr>"])
      (simp add: refused_def after_def is_412_def)
  have "Lock lib0 r0 (Context 0) ''k'' (after 1 500 [])
      = Some (Some (Errorf unknown_status (StatusCode \<lparr>StatusCode = 500, Body = []\<rparr>)),
              posted (after 1 500 []) lock0 (Suc 1))"
    by (rule other [where n = 1 and resp = "\<lparr>StatusCode = 500, Body = []\<rparr>"])
      (simp add: refused_def after_def is_412_def)
  then have b: "Lock lib0 r0 (Context 0) ''k'' (after 1 500 [])
      = Some (Some (ErrorString ''Unknown status code received: {}%!(EXTRA int=500)''),
              posted (after 1 500 []) lock0 (Suc 1))"
    by (simp add: e)
  have c: "Lock lib0 r0 (Context 0) ''k'' (always 412 []) = None"
    by (rule never) (simp add: always_def after_def is_412_def)
  have d: "Lock lib0 r0 (Context 0) ''k'' down
      = Some (Some (DoError ''connection refused''), posted down lock0 (Suc 0))"
    by (rule failed [where n = 0 and m = "''connection refused''"])
      (simp add: refused_def down_def)
  from a b c d show ?thesis
    by (simp add: numeral_3_eq_3 numeral_2_eq_2)
qed

subsection \<open>Unlocking\<close>

text \<open>
  C3. The specification asks \<^verbatim>\<open>Unlock\<close> for the not-found error on an answer 404.
  \<^verbatim>\<open>Unlock\<close> tests the status against 204 only, so the remote that answers 404 gets
  the error that reports the status, where \<^verbatim>\<open>Delete\<close>, with the same request and the
  same answer, returns \<^verbatim>\<open>fs.ErrNotExist\<close>.
\<close>

theorem Unlock_404:
  "fst (Unlock lib0 r0 (Context 0) ''k'' (always 404 []))
      = Some (ErrorString ''Unknown status code received: {}%!(EXTRA int=404)'')
   \<and> fst (Unlock lib0 r0 (Context 0) ''k'' (always 404 [])) \<noteq> Some ErrNotExist
   \<and> fst (Delete lib0 r0 (Context 0) ''k'' (always 404 [])) = Some ErrNotExist"
  by (simp add: Unlock_def Delete_def lib0_def r0_def always_def after_def
      NewRequestWithContext_def Header_Add_def Do_def Errorf_def unknown_status_def Itoa_def
      digits.simps digit_def)

subsection \<open>The value on the wire\<close>

text \<open>
  C4. Base64 decoding, as \<^verbatim>\<open>Load\<close> applies it to the value field, inverts base64 encoding,
  as \<^verbatim>\<open>Store\<close> applies it to the value, for every byte list, the empty one and bytes of
  any value included. \<^verbatim>\<open>Store\<close> sends the marshalled request that carries the encoded
  value, and \<^verbatim>\<open>Load\<close> returns exactly \<open>v\<close> on an answer 200 whose value field is the
  encoding of \<open>v\<close>.
\<close>

theorem Store_Load_round_trip:
  "DecodeString (EncodeToString v) = (v, None)
   \<and> (\<forall>body. json_Marshal L (StoreRequest key (EncodeToString v) (Token r)) = Inr body
         \<and> url_Parse L (Endpoint r @ ''store'') = None \<longrightarrow>
         snd (Store L r ctx key v w)
           = posted w (post_request ctx (Endpoint r @ ''store'') body) 1)
   \<and> (\<forall>body resp. json_Marshal L (LoadRequest key (Token r)) = Inr body
         \<and> url_Parse L (Endpoint r @ ''load'') = None
         \<and> respond w (length (sent w)) (post_request ctx (Endpoint r @ ''load'') body) = Inr resp
         \<and> StatusCode resp = 200
         \<and> Decode_LoadResponse L (Body resp) = Inr (LoadResponse (EncodeToString v)) \<longrightarrow>
         fst (Load L r ctx key w) = Inr v)"
proof -
  have store: "snd (Store L r ctx key v w)
      = posted w (post_request ctx (Endpoint r @ ''store'') body) 1"
    if "json_Marshal L (StoreRequest key (EncodeToString v) (Token r)) = Inr body"
      and "url_Parse L (Endpoint r @ ''store'') = None" for body
    by (simp add: Store_answer [OF that])
  have load: "fst (Load L r ctx key w) = Inr v"
    if "json_Marshal L (LoadRequest key (Token r)) = Inr body"
      and "url_Parse L (Endpoint r @ ''load'') = None"
      and "respond w (length (sent w)) (post_request ctx (Endpoint r @ ''load'') body) = Inr resp"
      and "StatusCode resp = 200"
      and "Decode_LoadResponse L (Body resp) = Inr (LoadResponse (EncodeToString v))"
    for body resp
    using that(3,4,5)
    by (simp add: Load_answer [OF that(1,2)] DecodeString_EncodeToString)
  from store load DecodeString_EncodeToString [of v] show ?thesis
    by blast
qed

theorem Store_Load_round_trip_witness:
  "DecodeString (EncodeToString [0xFF, 0, 0x80, 0x0A]) = ([0xFF, 0, 0x80, 0x0A], None)
   \<and> DecodeString (EncodeToString []) = ([], None)
   \<and> fst (Load lib0 r0 (Context 0) ''k'' (always 200 (EncodeToString [0xFF, 0, 0x80, 0x0A])))
      = Inr [0xFF, 0, 0x80, 0x0A]"
proof -
  note t = Store_Load_round_trip [of _ lib0 "''k''" r0 "Context 0"]
  have "fst (Load lib0 r0 (Context 0) ''k'' (always 200 (EncodeToString [0xFF, 0, 0x80, 0x0A])))
      = Inr [0xFF, 0, 0x80, 0x0A]"
    by (rule t [THEN conjunct2, THEN conjunct2, rule_format,
          where body = "''{}''"
            and resp = "\<lparr>StatusCode = 200, Body = EncodeToString [0xFF, 0, 0x80, 0x0A]\<rparr>"])
      (simp add: lib0_def r0_def always_def after_def)
  with t [of "[0xFF, 0, 0x80, 0x0A]", THEN conjunct1] t [of "[]", THEN conjunct1]
  show ?thesis
    by simp
qed

subsection \<open>Existence\<close>

text \<open>
  C5. \<^verbatim>\<open>Exists\<close> always returns a boolean, and it returns true exactly when the request
  could be built and sent and the answer has status 200 and a body that decodes with its
  \<^verbatim>\<open>exists\<close> field true. So it returns false when marshalling fails, when the request
  cannot be built, when the call fails, on every status other than 200, and on a body
  that does not decode.
\<close>

theorem Exists_boolean:
  "(fst (Exists_op L r ctx key w) \<longleftrightarrow>
      (\<exists>body resp. json_Marshal L (ExistsRequest key (Token r)) = Inr body
         \<and> url_Parse L (Endpoint r @ ''exists'') = None
         \<and> respond w (length (sent w)) (post_request ctx (Endpoint r @ ''exists'') body) = Inr resp
         \<and> StatusCode resp = 200
         \<and> Decode_ExistsResponse L (Body resp) = Inr (ExistsResponse True)))
   \<and> (\<forall>m. json_Marshal L (ExistsRequest key (Token r)) = Inl m \<longrightarrow>
         \<not> fst (Exists_op L r ctx key w))
   \<and> (\<forall>m. url_Parse L (Endpoint r @ ''exists'') = Some m \<longrightarrow> \<not> fst (Exists_op L r ctx key w))
   \<and> (\<forall>body. json_Marshal L (ExistsRequest key (Token r)) = Inr body
         \<and> url_Parse L (Endpoint r @ ''exists'') = None \<longrightarrow>
         (\<forall>m. respond w (length (sent w)) (post_request ctx (Endpoint r @ ''exists'') body) = Inl m
            \<longrightarrow> \<not> fst (Exists_op L r ctx key w))
         \<and> (\<forall>resp. respond w (length (sent w)) (post_request ctx (Endpoint r @ ''exists'') body)
                = Inr resp \<and> StatusCode resp \<noteq> 200 \<longrightarrow> \<not> fst (Exists_op L r ctx key w))
         \<and> (\<forall>resp m. respond w (length (sent w)) (post_request ctx (Endpoint r @ ''exists'') body)
                = Inr resp \<and> Decode_ExistsResponse L (Body resp) = Inl m \<longrightarrow>
                \<not> fst (Exists_op L r ctx key w)))"
proof -
  have iff: "fst (Exists_op L r ctx key w) \<longleftrightarrow>
      (\<exists>body resp. json_Marshal L (ExistsRequest key (Token r)) = Inr body
         \<and> url_Parse L (Endpoint r @ ''exists'') = None
         \<and> respond w (length (sent w)) (post_request ctx (Endpoint r @ ''exists'') body) = Inr resp
         \<and> StatusCode resp = 200
         \<and> Decode_ExistsResponse L (Body resp) = Inr (ExistsResponse True))"
  proof (cases "json_Marshal L (ExistsRequest key (Token r))")
    case (Inl m)
    then show ?thesis
      by (simp add: no_request(3))
  next
    case (Inr body)
    show ?thesis
    proof (cases "url_Parse L (Endpoint r @ ''exists'')")
      case (Some m)
      with Inr show ?thesis
        by (simp add: no_request(4))
    next
      case None
      show ?thesis
        by (auto simp add: Inr None Exists_answer [OF Inr None] Exists_True
            split: sum.splits if_splits)
    qed
  qed
  have "\<not> fst (Exists_op L r ctx key w)"
    if "json_Marshal L (ExistsRequest key (Token r)) = Inl m" for m
    using that by (simp add: iff)
  moreover have "\<not> fst (Exists_op L r ctx key w)"
    if "url_Parse L (Endpoint r @ ''exists'') = Some m" for m
    using that by (simp add: iff)
  moreover have "\<not> fst (Exists_op L r ctx key w)"
    if "json_Marshal L (ExistsRequest key (Token r)) = Inr body"
      and "url_Parse L (Endpoint r @ ''exists'') = None"
      and "respond w (length (sent w)) (post_request ctx (Endpoint r @ ''exists'') body) = Inl m"
    for body m
    using that(3) by (simp add: Exists_answer [OF that(1,2)])
  moreover have "\<not> fst (Exists_op L r ctx key w)"
    if "json_Marshal L (ExistsRequest key (Token r)) = Inr body"
      and "url_Parse L (Endpoint r @ ''exists'') = None"
      and "respond w (length (sent w)) (post_request ctx (Endpoint r @ ''exists'') body) = Inr resp"
      and "StatusCode resp \<noteq> 200"
    for body resp
    using that(3,4) by (simp add: Exists_answer [OF that(1,2)])
  moreover have "\<not> fst (Exists_op L r ctx key w)"
    if "json_Marshal L (ExistsRequest key (Token r)) = Inr body"
      and "url_Parse L (Endpoint r @ ''exists'') = None"
      and "respond w (length (sent w)) (post_request ctx (Endpoint r @ ''exists'') body) = Inr resp"
      and "Decode_ExistsResponse L (Body resp) = Inl m"
    for body resp m
    using that(3,4) by (simp add: Exists_answer [OF that(1,2)])
  ultimately show ?thesis
    using iff by blast
qed

theorem Exists_boolean_witness:
  "fst (Exists_op lib0 r0 (Context 0) ''k'' (always 200 ''true''))
   \<and> \<not> fst (Exists_op lib0 r0 (Context 0) ''k'' (always 200 ''false''))
   \<and> \<not> fst (Exists_op lib0 r0 (Context 0) ''k'' (always 200 ''{''))
   \<and> \<not> fst (Exists_op lib0 r0 (Context 0) ''k'' (always 500 ''true''))
   \<and> \<not> fst (Exists_op lib0 r0 (Context 0) ''k'' down)"
proof -
  note t = Exists_boolean [of lib0 r0 "Context 0" "''k''", THEN conjunct1]
  have a: "fst (Exists_op lib0 r0 (Context 0) ''k'' (always 200 ''true''))"
    unfolding t by (simp add: lib0_def r0_def always_def after_def)
  have b: "\<not> fst (Exists_op lib0 r0 (Context 0) ''k'' (always 200 ''false''))"
    unfolding t by (simp add: lib0_def r0_def always_def after_def)
  have c: "\<not> fst (Exists_op lib0 r0 (Context 0) ''k'' (always 200 ''{''))"
    unfolding t by (simp add: lib0_def r0_def always_def after_def)
  have d: "\<not> fst (Exists_op lib0 r0 (Context 0) ''k'' (always 500 ''true''))"
    unfolding t by (simp add: lib0_def r0_def always_def after_def)
  have e: "\<not> fst (Exists_op lib0 r0 (Context 0) ''k'' down)"
    unfolding t by (simp add: lib0_def r0_def down_def)
  from a b c d e show ?thesis
    by simp
qed

subsection \<open>Not found\<close>

text \<open>
  C6. Each of \<^verbatim>\<open>Load\<close>, \<^verbatim>\<open>Delete\<close>, \<^verbatim>\<open>List\<close> and \<^verbatim>\<open>Stat\<close> returns the not-found error
  \<^verbatim>\<open>fs.ErrNotExist\<close> exactly when its request was sent and answered with status 404: a 404
  always gives it, and no other status, no failure to build or send the request and no
  failure to decode the answer does.
\<close>

theorem not_found_iff_404:
  "(fst (Load L r ctx key w) = Inl ErrNotExist \<longleftrightarrow>
      (\<exists>body resp. json_Marshal L (LoadRequest key (Token r)) = Inr body
         \<and> url_Parse L (Endpoint r @ ''load'') = None
         \<and> respond w (length (sent w)) (post_request ctx (Endpoint r @ ''load'') body) = Inr resp
         \<and> StatusCode resp = 404))
   \<and> (fst (Delete L r ctx key w) = Some ErrNotExist \<longleftrightarrow>
      (\<exists>body resp. json_Marshal L (DeleteRequest key (Token r)) = Inr body
         \<and> url_Parse L (Endpoint r @ ''delete'') = None
         \<and> respond w (length (sent w)) (post_request ctx (Endpoint r @ ''delete'') body) = Inr resp
         \<and> StatusCode resp = 404))
   \<and> (fst (List_op L r ctx prefix recursive w) = Inl ErrNotExist \<longleftrightarrow>
      (\<exists>body resp. json_Marshal L (ListRequest prefix recursive (Token r)) = Inr body
         \<and> url_Parse L (Endpoint r @ ''list'') = None
         \<and> respond w (length (sent w)) (post_request ctx (Endpoint r @ ''list'') body) = Inr resp
         \<and> StatusCode resp = 404))
   \<and> (fst (Stat L r ctx key w) = Inl ErrNotExist \<longleftrightarrow>
      (\<exists>body resp. json_Marshal L (StatRequest key (Token r)) = Inr body
         \<and> url_Parse L (Endpoint r @ ''stat'') = None
         \<and> respond w (length (sent w)) (post_request ctx (Endpoint r @ ''stat'') body) = Inr resp
         \<and> StatusCode resp = 404))"
  by (intro conjI Load_ErrNotExist Delete_ErrNotExist List_ErrNotExist Stat_ErrNotExist)

theorem not_found_iff_404_witness:
  "fst (Load lib0 r0 (Context 0) ''k'' (always 404 [])) = Inl ErrNotExist
   \<and> fst (Load lib0 r0 (Context 0) ''k'' (always 500 [])) \<noteq> Inl ErrNotExist
   \<and> fst (Load lib0 r0 (Context 0) ''k'' (always 200 ''!'')) \<noteq> Inl ErrNotExist
   \<and> fst (Delete lib0 r0 (Context 0) ''k'' (always 404 [])) = Some ErrNotExist
   \<and> fst (Delete lib0 r0 (Context 0) ''k'' (always 204 [])) \<noteq> Some ErrNotExist
   \<and> fst (List_op lib0 r0 (Context 0) ''p'' True (always 404 [])) = Inl ErrNotExist
   \<and> fst (List_op lib0 r0 (Context 0) ''p'' True down) \<noteq> Inl ErrNotExist
   \<and> fst (Stat lib0 r0 (Context 0) ''k'' (always 404 [])) = Inl ErrNotExist
   \<and> fst (Stat lib0 r0 (Context 0) ''k'' (always 200 ''yesterday'')) \<noteq> Inl ErrNotExist"
proof -
  note load = not_found_iff_404 [of lib0 r0 "Context 0" "''k''", THEN conjunct1]
  note delete = not_found_iff_404 [of lib0 r0 "Context 0" "''k''",
      THEN conjunct2, THEN conjunct1]
  note list = not_found_iff_404 [of lib0 r0 "Context 0" _ _ "''p''" True,
      THEN conjunct2, THEN conjunct2, THEN conjunct1]
  note stat = not_found_iff_404 [of lib0 r0 "Context 0" "''k''",
      THEN conjunct2, THEN conjunct2, THEN conjunct2]
  have a: "fst (Load lib0 r0 (Context 0) ''k'' (always 404 [])) = Inl ErrNotExist"
    unfolding load by (simp add: lib0_def r0_def always_def after_def)
  have b: "fst (Load lib0 r0 (Context 0) ''k'' (always 500 [])) \<noteq> Inl ErrNotExist"
    unfolding load by (simp add: lib0_def r0_def always_def after_def)
  have c: "fst (Load lib0 r0 (Context 0) ''k'' (always 200 ''!'')) \<noteq> Inl ErrNotExist"
    unfolding load by (simp add: lib0_def r0_def always_def after_def)
  have d: "fst (Delete lib0 r0 (Context 0) ''k'' (always 404 [])) = Some ErrNotExist"
    unfolding delete by (simp add: lib0_def r0_def always_def after_def)
  have e: "fst (Delete lib0 r0 (Context 0) ''k'' (always 204 [])) \<noteq> Some ErrNotExist"
    unfolding delete by (simp add: lib0_def r0_def always_def after_def)
  have f: "fst (List_op lib0 r0 (Context 0) ''p'' True (always 404 [])) = Inl ErrNotExist"
    unfolding list by (simp add: lib0_def r0_def always_def after_def)
  have g: "fst (List_op lib0 r0 (Context 0) ''p'' True down) \<noteq> Inl ErrNotExist"
    unfolding list by (simp add: lib0_def r0_def down_def)
  have h: "fst (Stat lib0 r0 (Context 0) ''k'' (always 404 [])) = Inl ErrNotExist"
    unfolding stat by (simp add: lib0_def r0_def always_def after_def)
  have i: "fst (Stat lib0 r0 (Context 0) ''k'' (always 200 ''yesterday'')) \<noteq> Inl ErrNotExist"
    unfolding stat by (simp add: lib0_def r0_def always_def after_def)
  from a b c d e f g h i show ?thesis
    by simp
qed

subsection \<open>Unexpected status\<close>

text \<open>
  C7, for the operations that return an error. A status outside the set documented for
  the operation makes \<^verbatim>\<open>Lock\<close>, \<^verbatim>\<open>Unlock\<close>, \<^verbatim>\<open>Store\<close>, \<^verbatim>\<open>Load\<close>, \<^verbatim>\<open>Delete\<close>, \<^verbatim>\<open>List\<close>
  and \<^verbatim>\<open>Stat\<close> return the error built by \<^verbatim>\<open>fmt.Errorf\<close> from the status, and
  \<open>status_of\<close> reads the status back from that error. The documented sets are 201 and 412
  for \<^verbatim>\<open>Lock\<close>, 204 and 404 for \<^verbatim>\<open>Unlock\<close> and \<^verbatim>\<open>Delete\<close>, 201 for \<^verbatim>\<open>Store\<close>, 200 and 404
  for \<^verbatim>\<open>Load\<close>, \<^verbatim>\<open>List\<close> and \<^verbatim>\<open>Stat\<close>.
\<close>

theorem unexpected_status_code:
  "(\<forall>body n resp. json_Marshal L (LockRequest key (Token r)) = Inr body
        \<and> url_Parse L (Endpoint r @ ''lock'') = None
        \<and> refused w (post_request ctx (Endpoint r @ ''lock'') body) n
        \<and> respond w (length (sent w) + n) (post_request ctx (Endpoint r @ ''lock'') body) = Inr resp
        \<and> StatusCode resp \<noteq> 201 \<and> StatusCode resp \<noteq> 412 \<longrightarrow>
        (\<exists>e w'. Lock L r ctx key w = Some (Some e, w') \<and> status_of e = Some (StatusCode resp)))
   \<and> (\<forall>body resp. json_Marshal L (UnlockRequest key (Token r)) = Inr body
        \<and> url_Parse L (Endpoint r @ ''unlock'') = None
        \<and> respond w (length (sent w)) (post_request ctx (Endpoint r @ ''unlock'') body) = Inr resp
        \<and> StatusCode resp \<noteq> 204 \<and> StatusCode resp \<noteq> 404 \<longrightarrow>
        (\<exists>e. fst (Unlock L r ctx key w) = Some e \<and> status_of e = Some (StatusCode resp)))
   \<and> (\<forall>body resp. json_Marshal L (StoreRequest key (EncodeToString v) (Token r)) = Inr body
        \<and> url_Parse L (Endpoint r @ ''store'') = None
        \<and> respond w (length (sent w)) (post_request ctx (Endpoint r @ ''store'') body) = Inr resp
        \<and> StatusCode resp \<noteq> 201 \<longrightarrow>
        (\<exists>e. fst (Store L r ctx key v w) = Some e \<and> status_of e = Some (StatusCode resp)))
   \<and> (\<forall>body resp. json_Marshal L (LoadRequest key (Token r)) = Inr body
        \<and> url_Parse L (Endpoint r @ ''load'') = None
        \<and> respond w (length (sent w)) (post_request ctx (Endpoint r @ ''load'') body) = Inr resp
        \<and> StatusCode resp \<noteq> 200 \<and> StatusCode resp \<noteq> 404 \<longrightarrow>
        (\<exists>e. fst (Load L r ctx key w) = Inl e \<and> status_of e = Some (StatusCode resp)))
   \<and> (\<forall>body resp. json_Marshal L (DeleteRequest key (Token r)) = Inr body
        \<and> url_Parse L (Endpoint r @ ''delete'') = None
        \<and> respond w (length (sent w)) (post_request ctx (Endpoint r @ ''delete'') body) = Inr resp
        \<and> StatusCode resp \<noteq> 204 \<and> StatusCode resp \<noteq> 404 \<longrightarrow>
        (\<exists>e. fst (Delete L r ctx key w) = Some e \<and> status_of e = Some (StatusCode resp)))
   \<and> (\<forall>body resp. json_Marshal L (ListRequest prefix recursive (Token r)) = Inr body
        \<and> url_Parse L (Endpoint r @ ''list'') = None
        \<and> respond w (length (sent w)) (post_request ctx (Endpoint r @ ''list'') body) = Inr resp
        \<and> StatusCode resp \<noteq> 200 \<and> StatusCode resp \<noteq> 404 \<longrightarrow>
        (\<exists>e. fst (List_op L r ctx prefix recursive w) = Inl e
           \<and> status_of e = Some (StatusCode resp)))
   \<and> (\<forall>body resp. json_Marshal L (StatRequest key (Token r)) = Inr body
        \<and> url_Parse L (Endpoint r @ ''stat'') = None
        \<and> respond w (length (sent w)) (post_request ctx (Endpoint r @ ''stat'') body) = Inr resp
        \<and> StatusCode resp \<noteq> 200 \<and> StatusCode resp \<noteq> 404 \<longrightarrow>
        (\<exists>e. fst (Stat L r ctx key w) = Inl e \<and> status_of e = Some (StatusCode resp)))"
proof -
  have lock: "\<exists>e w'. Lock L r ctx key w = Some (Some e, w') \<and> status_of e = Some (StatusCode resp)"
    if "json_Marshal L (LockRequest key (Token r)) = Inr body"
      and "url_Parse L (Endpoint r @ ''lock'') = None"
      and "refused w (post_request ctx (Endpoint r @ ''lock'') body) n"
      and "respond w (length (sent w) + n) (post_request ctx (Endpoint r @ ''lock'') body) = Inr resp"
      and "StatusCode resp \<noteq> 201" and "StatusCode resp \<noteq> 412"
    for body n resp
  proof -
    have "\<not> is_412 (respond w (length (sent w) + n) (post_request ctx (Endpoint r @ ''lock'') body))"
      using that(4,6) by (simp add: is_412_def)
    from Lock_loop_ends [OF that(2,3) this] that(4,5)
    have "Lock L r ctx key w
        = Some (Some (Errorf unknown_status (StatusCode resp)),
                posted w (post_request ctx (Endpoint r @ ''lock'') body) (Suc n))"
      by (simp add: Lock_marshalled [OF that(1)] lock_result_def)
    then show ?thesis
      by (simp add: status_of_Errorf)
  qed
  have unlock: "\<exists>e. fst (Unlock L r ctx key w) = Some e \<and> status_of e = Some (StatusCode resp)"
    if "json_Marshal L (UnlockRequest key (Token r)) = Inr body"
      and "url_Parse L (Endpoint r @ ''unlock'') = None"
      and "respond w (length (sent w)) (post_request ctx (Endpoint r @ ''unlock'') body) = Inr resp"
      and "StatusCode resp \<noteq> 204" and "StatusCode resp \<noteq> 404"
    for body resp
    using that(3,4) by (simp add: Unlock_answer [OF that(1,2)] status_of_Errorf)
  have store: "\<exists>e. fst (Store L r ctx key v w) = Some e \<and> status_of e = Some (StatusCode resp)"
    if "json_Marshal L (StoreRequest key (EncodeToString v) (Token r)) = Inr body"
      and "url_Parse L (Endpoint r @ ''store'') = None"
      and "respond w (length (sent w)) (post_request ctx (Endpoint r @ ''store'') body) = Inr resp"
      and "StatusCode resp \<noteq> 201"
    for body resp
    using that(3,4) by (simp add: Store_answer [OF that(1,2)] status_of_Errorf)
  have load: "\<exists>e. fst (Load L r ctx key w) = Inl e \<and> status_of e = Some (StatusCode resp)"
    if "json_Marshal L (LoadRequest key (Token r)) = Inr body"
      and "url_Parse L (Endpoint r @ ''load'') = None"
      and "respond w (length (sent w)) (post_request ctx (Endpoint r @ ''load'') body) = Inr resp"
      and "StatusCode resp \<noteq> 200" and "StatusCode resp \<noteq> 404"
    for body resp
    using that(3,4,5) by (simp add: Load_answer [OF that(1,2)] status_of_Errorf)
  have delete: "\<exists>e. fst (Delete L r ctx key w) = Some e \<and> status_of e = Some (StatusCode resp)"
    if "json_Marshal L (DeleteRequest key (Token r)) = Inr body"
      and "url_Parse L (Endpoint r @ ''delete'') = None"
      and "respond w (length (sent w)) (post_request ctx (Endpoint r @ ''delete'') body) = Inr resp"
      and "StatusCode resp \<noteq> 204" and "StatusCode resp \<noteq> 404"
    for body resp
    using that(3,4,5) by (simp add: Delete_answer [OF that(1,2)] status_of_Errorf)
  have list: "\<exists>e. fst (List_op L r ctx prefix recursive w) = Inl e
      \<and> status_of e = Some (StatusCode resp)"
    if "json_Marshal L (ListRequest prefix recursive (Token r)) = Inr body"
      and "url_Parse L (Endpoint r @ ''list'') = None"
      and "respond w (length (sent w)) (post_request ctx (Endpoint r @ ''list'') body) = Inr resp"
      and "StatusCode resp \<noteq> 200" and "StatusCode resp \<noteq> 404"
    for body resp
    using that(3,4,5) by (simp add: List_answer [OF that(1,2)] status_of_Errorf)
  have stat: "\<exists>e. fst (Stat L r ctx key w) = Inl e \<and> status_of e = Some (StatusCode resp)"
    if "json_Marshal L (StatRequest key (Token r)) = Inr body"
      and "url_Parse L (Endpoint r @ ''stat'') = None"
      and "respond w (length (sent w)) (post_request ctx (Endpoint r @ ''stat'') body) = Inr resp"
      and "StatusCode resp \<noteq> 200" and "StatusCode resp \<noteq> 404"
    for body resp
    using that(3,4,5) by (simp add: Stat_answer [OF that(1,2)] status_of_Errorf)
  show ?thesis
    apply (intro conjI allI impI)
    subgoal by (elim conjE) (rule lock)
    subgoal by (elim conjE) (rule unlock)
    subgoal by (elim conjE) (rule store)
    subgoal by (elim conjE) (rule load)
    subgoal by (elim conjE) (rule delete)
    subgoal by (elim conjE) (rule list)
    subgoal by (elim conjE) (rule stat)
    done
qed

theorem unexpected_status_code_witness:
  "(\<exists>e. fst (Store lib0 r0 (Context 0) ''k'' [1, 2] (always 500 [])) = Some e
       \<and> status_of e = Some 500)
   \<and> (\<exists>e. fst (Unlock lib0 r0 (Context 0) ''k'' (always 500 [])) = Some e
       \<and> status_of e = Some 500)
   \<and> (\<exists>e. fst (Stat lib0 r0 (Context 0) ''k'' (always 503 [])) = Inl e
       \<and> status_of e = Some 503)"
proof -
  note t = unexpected_status_code [of lib0 "''k''" r0 _ "Context 0"]
  have a: "\<exists>e. fst (Store lib0 r0 (Context 0) ''k'' [1, 2] (always 500 [])) = Some e
      \<and> status_of e = Some (StatusCode \<lparr>StatusCode = 500, Body = []\<rparr>)"
    by (rule t [THEN conjunct2, THEN conjunct2, THEN conjunct1, rule_format,
          where body = "''{}''"])
      (simp add: lib0_def r0_def always_def after_def)
  have b: "\<exists>e. fst (Unlock lib0 r0 (Context 0) ''k'' (always 500 [])) = Some e
      \<and> status_of e = Some (StatusCode \<lparr>StatusCode = 500, Body = []\<rparr>)"
    by (rule t [THEN conjunct2, THEN conjunct1, rule_format, where body = "''{}''"])
      (simp add: lib0_def r0_def always_def after_def)
  have c: "\<exists>e. fst (Stat lib0 r0 (Context 0) ''k'' (always 503 [])) = Inl e
      \<and> status_of e = Some (StatusCode \<lparr>StatusCode = 503, Body = []\<rparr>)"
    by (rule t [THEN conjunct2, THEN conjunct2, THEN conjunct2, THEN conjunct2,
          THEN conjunct2, THEN conjunct2, rule_format, where body = "''{}''"])
      (simp add: lib0_def r0_def always_def after_def)
  from a b c show ?thesis
    by simp
qed

text \<open>
  The claim as the specification words it speaks of every operation. \<^verbatim>\<open>Exists\<close> has no
  error result: on status 500 it returns \<open>False\<close> and the status is lost.
\<close>

theorem Exists_500:
  "Exists_op lib0 r0 (Context 0) ''k'' (always 500 [])
     = (False, posted (always 500 []) (post_request (Context 0) ''http://kv/exists'' ''{}'') 1)
   \<and> fst (Exists_op lib0 r0 (Context 0) ''k'' (always 500 []))
     = fst (Exists_op lib0 r0 (Context 0) ''k'' (always 403 []))"
  by (simp add: Exists_op_def lib0_def r0_def always_def after_def NewRequestWithContext_def
      Header_Add_def Do_def posted_def post_request_def)

subsection \<open>The time of modification\<close>



subsection \<open>Cancellation\<close>




end
